theory Spec2Isabelle
  imports
    Main
    "HOL-Library.Word"
    "HOL-Library.Multiset"
    "HOL-Library.List_Lexorder"
    "HOL-Library.Product_Lexorder"
    "HOL-Library.AList"
begin

unbundle bit_operations_syntax

section \<open>Values shared by the two scripts\<close>

text \<open>
  A Python \<open>str\<close> is a sequence of Unicode code points, a \<open>bytes\<close> value a sequence of
  octets. Lists of code points and lists of octets are ordered lexicographically, as
  Python orders \<open>str\<close> and as SQLite orders \<open>BLOB\<close>s (\<open>memcmp\<close>, the shorter first).
\<close>

type_synonym pystr = "nat list"
type_synonym byte = "8 word"
type_synonym blob = "byte list"

definition pystr_of :: "string \<Rightarrow> pystr" where
  "pystr_of s = map of_char s"

datatype error =
    ValueError      \<comment> \<open>\<open>make_rom_id\<close>, \<open>bytes.fromhex\<close>\<close>
  | TypeError       \<comment> \<open>ordering or encoding \<open>None\<close>\<close>
  | StructError     \<comment> \<open>\<open>struct.pack\<close> out of range\<close>
  | IntegrityError  \<comment> \<open>a constraint of the SQLite schema\<close>

definition ebind :: "error + 'a \<Rightarrow> ('a \<Rightarrow> error + 'b) \<Rightarrow> error + 'b" where
  "ebind m f = (case m of Inl e \<Rightarrow> Inl e | Inr x \<Rightarrow> f x)"

fun emap :: "('a \<Rightarrow> error + 'b) \<Rightarrow> 'a list \<Rightarrow> error + 'b list" where
  "emap f [] = Inr []"
| "emap f (x # xs) =
     (case f x of Inl e \<Rightarrow> Inl e
      | Inr y \<Rightarrow> (case emap f xs of Inl e \<Rightarrow> Inl e | Inr ys \<Rightarrow> Inr (y # ys)))"

section \<open>The catalogue: the SQLite schema of \<open>create_database\<close>\<close>

text \<open>
  Each table is the list of its rows in rowid order. A column that the schema leaves
  nullable is an \<open>option\<close>. The \<open>AUTOINCREMENT\<close> tables carry the largest rowid ever
  handed out (SQLite's \<open>sqlite_sequence\<close>).
\<close>

record manufacturer_row =
  mf_id :: int
  mf_name :: "pystr option"

record rom_name_row =
  rn_id :: int
  rn_name :: pystr

record rom_row =
  rom_id :: int
  rom_sha1 :: "blob option"
  rom_crc :: "blob option"
  rom_size_pow2 :: "int option"
  rom_name_id :: "int option"

record machine_row =
  m_id :: int
  m_name :: pystr
  m_cloneof_id :: "int option"
  m_romof_id :: "int option"
  m_description :: "blob option"
  m_year :: "int option"
  m_manufacturer_id :: "int option"

record machine_rom_row =
  mr_id :: int
  mr_machine_id :: int
  mr_rom_id :: int
  mr_name_id :: "int option"

record conn =
  manufacturers :: "manufacturer_row list"
  rom_names :: "rom_name_row list"
  roms :: "rom_row list"
  machines :: "machine_row list"
  machine_roms :: "machine_rom_row list"
  seq_manufacturers :: int
  seq_rom_names :: int
  seq_roms :: int
  seq_machine_roms :: int

section \<open>\<open>generate_embedded_database.py\<close>\<close>

subsection \<open>Constants and helper functions\<close>

definition NULL_ID_24 :: int where "NULL_ID_24 = 0xFFFFFF"
definition NULL_ID_16 :: int where "NULL_ID_16 = 0xFFFF"
definition HEADER_SIZE :: nat where "HEADER_SIZE = 64"
definition MAGIC :: blob where "MAGIC = [0x4D, 0x52, 0x44, 0x42]"
definition VERSION :: int where "VERSION = 1"

text \<open>\<open>struct.pack\<close> with a little-endian unsigned format of \<open>n\<close> bytes (\<open>B\<close>, \<open>H\<close>, \<open>I\<close>):
  a value outside the range raises \<open>struct.error\<close>.\<close>

fun le_bytes :: "nat \<Rightarrow> int \<Rightarrow> blob" where
  "le_bytes 0 v = []"
| "le_bytes (Suc n) v = word_of_int v # le_bytes n (v div 256)"

definition pack_uint :: "nat \<Rightarrow> int \<Rightarrow> error + blob" where
  "pack_uint n v = (if 0 \<le> v \<and> v < 2 ^ (8 * n) then Inr (le_bytes n v) else Inl StructError)"

definition pack_B :: "int \<Rightarrow> error + blob" where "pack_B = pack_uint 1"
definition pack_H :: "int \<Rightarrow> error + blob" where "pack_H = pack_uint 2"
definition pack_I :: "int \<Rightarrow> error + blob" where "pack_I = pack_uint 4"

fun le_int :: "blob \<Rightarrow> int" where
  "le_int [] = 0"
| "le_int (b # bs) = uint b + 256 * le_int bs"

definition write_uint24 :: "int \<Rightarrow> error + blob" where
  "write_uint24 v = (case pack_I v of Inl e \<Rightarrow> Inl e | Inr bs \<Rightarrow> Inr (take 3 bs))"

definition read_uint24 :: "blob \<Rightarrow> nat \<Rightarrow> int" where
  "read_uint24 data offset = le_int (take 3 (drop offset data) @ [0])"

definition make_rom_id :: "int \<Rightarrow> nat \<Rightarrow> error + int" where
  "make_rom_id size_pow2 index =
     (if index > 0xFFFF then Inl ValueError
      else Inr (push_bit 16 size_pow2 OR int index))"

definition extract_size_pow2 :: "int \<Rightarrow> int" where
  "extract_size_pow2 rid = drop_bit 16 rid AND 0xFF"

definition extract_rom_index :: "int \<Rightarrow> int" where
  "extract_rom_index rid = rid AND 0xFFFF"

subsection \<open>\<open>load_database\<close>\<close>

text \<open>A Python dict whose order matters is an association list in insertion order;
  storing under a key that is present replaces the value and keeps the position.\<close>

definition dict_of_rows :: "('r \<Rightarrow> 'k) \<Rightarrow> ('r \<Rightarrow> 'v) \<Rightarrow> 'r list \<Rightarrow> ('k \<times> 'v) list" where
  "dict_of_rows k v rows = fold (\<lambda>r d. AList.update (k r) (v r) d) rows []"

record loaded_rom =
  lr_old_id :: int
  lr_sha1 :: blob
  lr_size_pow2 :: int
  lr_name_id :: "int option"

record loaded_machine =
  lm_name :: pystr
  lm_cloneof_id :: "int option"
  lm_romof_id :: "int option"
  lm_description :: "blob option"
  lm_year :: int
  lm_manufacturer_id :: "int option"

record loaded_machine_rom =
  lmr_machine_id :: int
  lmr_rom_id :: int
  lmr_name_id :: "int option"

record loaded =
  ld_manufacturers :: "(int \<times> pystr option) list"
  ld_rom_names :: "(int \<times> pystr) list"
  ld_roms :: "loaded_rom list"
  ld_machines :: "(int \<times> loaded_machine) list"
  ld_machine_roms :: "loaded_machine_rom list"

text \<open>The \<open>WHERE\<close> clause on \<open>roms\<close>: a \<open>NULL\<close> never satisfies a comparison.\<close>

definition select_rom :: "int \<Rightarrow> int \<Rightarrow> rom_row \<Rightarrow> loaded_rom option" where
  "select_rom min_size_pow2 max_size_pow2 r =
     (case (rom_size_pow2 r, rom_sha1 r) of
        (Some s, Some h) \<Rightarrow>
          if s \<ge> min_size_pow2 \<and> s \<le> max_size_pow2 \<and> length h = 20
          then Some \<lparr> lr_old_id = rom_id r, lr_sha1 = h, lr_size_pow2 = s,
                      lr_name_id = rom_name_id r \<rparr>
          else None
      | _ \<Rightarrow> None)"

definition load_machine :: "machine_row \<Rightarrow> loaded_machine" where
  "load_machine r =
     \<lparr> lm_name = m_name r, lm_cloneof_id = m_cloneof_id r, lm_romof_id = m_romof_id r,
       lm_description = m_description r,
       lm_year = (case m_year r of None \<Rightarrow> 0 | Some y \<Rightarrow> if y \<noteq> 0 then y else 0),
       lm_manufacturer_id = m_manufacturer_id r \<rparr>"

definition load_machine_rom :: "machine_rom_row \<Rightarrow> loaded_machine_rom" where
  "load_machine_rom r =
     \<lparr> lmr_machine_id = mr_machine_id r, lmr_rom_id = mr_rom_id r, lmr_name_id = mr_name_id r \<rparr>"

text \<open>\<open>ORDER BY\<close> is a stable sort of the table in rowid order.\<close>

definition load_database :: "conn \<Rightarrow> int \<Rightarrow> int \<Rightarrow> loaded" where
  "load_database db min_size_pow2 max_size_pow2 =
     (let manufacturers' = dict_of_rows mf_id mf_name (sort_key mf_id (manufacturers db));
          rom_names' = dict_of_rows rn_id rn_name (sort_key rn_id (rom_names db));
          roms' = sort_key (\<lambda>r. (lr_size_pow2 r, lr_sha1 r))
                    (List.map_filter (select_rom min_size_pow2 max_size_pow2) (roms db));
          machines' = dict_of_rows m_id load_machine (sort_key m_id (machines db));
          rom_old_ids = set (map lr_old_id roms');
          machine_roms' = map load_machine_rom
                    (filter (\<lambda>r. mr_rom_id r \<in> rom_old_ids)
                       (sort_key (\<lambda>r. (mr_rom_id r, mr_machine_id r)) (machine_roms db)))
      in \<lparr> ld_manufacturers = manufacturers', ld_rom_names = rom_names', ld_roms = roms',
           ld_machines = machines', ld_machine_roms = machine_roms' \<rparr>)"

subsection \<open>\<open>remap_ids\<close>\<close>

record remapped_rom =
  rr_old_id :: int
  rr_sha1 :: blob
  rr_size_pow2 :: int
  rr_name_id :: int
  rr_new_id :: "int option"

record remapped_machine =
  rm_name :: pystr
  rm_cloneof_id :: int
  rm_romof_id :: int
  rm_description :: "blob option"
  rm_year :: int
  rm_manufacturer_id :: int
  rm_old_id :: int

record remapped_machine_rom =
  rmr_machine_id :: int
  rmr_rom_id :: int
  rmr_name_id :: int

text \<open>The dicts \<open>new_machines\<close>, \<open>new_manufacturers\<close> and \<open>new_rom_names\<close> get the keys
  \<open>0, 1, 2, ...\<close> in this order: each is the list of its values, the key being the index.\<close>

record remapped =
  rd_roms :: "remapped_rom list"
  rd_machines :: "remapped_machine list"
  rd_machine_roms :: "remapped_machine_rom list"
  rd_manufacturers :: "pystr option list"
  rd_rom_names :: "pystr list"
  rd_size_index :: "int \<rightharpoonup> nat \<times> nat"
  rd_rom_id_map :: "int \<rightharpoonup> int"

text \<open>The ROM dicts of \<open>data['roms']\<close> are shared with the lists of \<open>roms_by_size\<close>: a ROM
  object is named by its position in \<open>data['roms']\<close>, and \<open>rs_new_ids\<close> holds the field
  \<open>new_id\<close> of the objects that have one.\<close>

record rom_state =
  rs_rom_id_map :: "int \<rightharpoonup> int"
  rs_size_index :: "int \<rightharpoonup> nat \<times> nat"
  rs_global_index :: nat
  rs_new_ids :: "nat \<rightharpoonup> int"

fun remap_class :: "int \<Rightarrow> (nat \<times> loaded_rom) list \<Rightarrow> nat \<Rightarrow> rom_state \<Rightarrow> error + rom_state" where
  "remap_class size_pow2 [] idx st = Inr st"
| "remap_class size_pow2 ((k, rom) # rest) idx st =
     (case make_rom_id size_pow2 idx of
        Inl e \<Rightarrow> Inl e
      | Inr new_id \<Rightarrow>
          remap_class size_pow2 rest (Suc idx)
            (st\<lparr> rs_rom_id_map := (rs_rom_id_map st)(lr_old_id rom \<mapsto> new_id),
                 rs_new_ids := (rs_new_ids st)(k \<mapsto> new_id),
                 rs_global_index := rs_global_index st + 1 \<rparr>))"

definition roms_by_size :: "(nat \<times> loaded_rom) list \<Rightarrow> int \<Rightarrow> (nat \<times> loaded_rom) list" where
  "roms_by_size objs size_pow2 = filter (\<lambda>(k, rom). lr_size_pow2 rom = size_pow2) objs"

fun remap_sizes :: "(nat \<times> loaded_rom) list \<Rightarrow> int list \<Rightarrow> rom_state \<Rightarrow> error + rom_state" where
  "remap_sizes objs [] st = Inr st"
| "remap_sizes objs (size_pow2 # sizes) st =
     (let roms_list = roms_by_size objs size_pow2;
          st1 = st\<lparr> rs_size_index :=
                      (rs_size_index st)(size_pow2 \<mapsto> (rs_global_index st, length roms_list)) \<rparr>
      in case remap_class size_pow2 roms_list 0 st1 of
           Inl e \<Rightarrow> Inl e
         | Inr st2 \<Rightarrow> remap_sizes objs sizes st2)"

definition remap_rom_ids :: "loaded_rom list \<Rightarrow> int \<Rightarrow> int \<Rightarrow> error + rom_state" where
  "remap_rom_ids roms0 min_size_pow2 max_size_pow2 =
     remap_sizes (List.enumerate 0 roms0) [min_size_pow2 .. max_size_pow2]
       \<lparr> rs_rom_id_map = Map.empty, rs_size_index = Map.empty, rs_global_index = 0,
         rs_new_ids = Map.empty \<rparr>"

text \<open>The machines that keep a ROM, in ascending order of their old id.\<close>

fun remap_machines ::
  "int set \<Rightarrow> (int \<times> loaded_machine) list \<Rightarrow> nat \<Rightarrow> (int \<rightharpoonup> int) \<Rightarrow>
   (loaded_machine \<times> int) list \<Rightarrow> (int \<rightharpoonup> int) \<times> (loaded_machine \<times> int) list" where
  "remap_machines machines_with_roms [] new_id machine_id_map new_machines =
     (machine_id_map, new_machines)"
| "remap_machines machines_with_roms ((old_id, m) # rest) new_id machine_id_map new_machines =
     (if old_id \<in> machines_with_roms
      then remap_machines machines_with_roms rest (Suc new_id)
             (machine_id_map(old_id \<mapsto> int new_id)) (new_machines @ [(m, old_id)])
      else remap_machines machines_with_roms rest new_id machine_id_map new_machines)"

text \<open>The loops over \<open>sorted(used_manufacturers)\<close> and \<open>sorted(used_rom_names)\<close>.\<close>

fun number_ids ::
  "(int \<Rightarrow> 'v) \<Rightarrow> int list \<Rightarrow> nat \<Rightarrow> (int \<rightharpoonup> int) \<Rightarrow> 'v list \<Rightarrow> (int \<rightharpoonup> int) \<times> 'v list" where
  "number_ids get [] new_id id_map new_values = (id_map, new_values)"
| "number_ids get (old_id # rest) new_id id_map new_values =
     number_ids get rest (Suc new_id) (id_map(old_id \<mapsto> int new_id)) (new_values @ [get old_id])"

definition dict_get :: "('k \<times> 'v) list \<Rightarrow> 'k \<Rightarrow> 'v \<Rightarrow> 'v" where
  "dict_get d k dflt = (case map_of d k of None \<Rightarrow> dflt | Some v \<Rightarrow> v)"

definition map_get :: "('k \<rightharpoonup> 'v) \<Rightarrow> 'k \<Rightarrow> 'v \<Rightarrow> 'v" where
  "map_get d k dflt = (case d k of None \<Rightarrow> dflt | Some v \<Rightarrow> v)"

text \<open>\<open>id_map.get(x, null) if x else null\<close>: \<open>None\<close> and \<open>0\<close> are both false.\<close>

definition remap_ref :: "(int \<rightharpoonup> int) \<Rightarrow> int \<Rightarrow> int option \<Rightarrow> int" where
  "remap_ref id_map null x =
     (case x of None \<Rightarrow> null | Some i \<Rightarrow> if i \<noteq> 0 then map_get id_map i null else null)"

definition remap_ids :: "loaded \<Rightarrow> int \<Rightarrow> int \<Rightarrow> error + remapped" where
  "remap_ids data min_size_pow2 max_size_pow2 =
     (case remap_rom_ids (ld_roms data) min_size_pow2 max_size_pow2 of
        Inl e \<Rightarrow> Inl e
      | Inr st \<Rightarrow>
        (let rom_id_map = rs_rom_id_map st;
             machines_with_roms = set (map lmr_machine_id (ld_machine_roms data));
             (machine_id_map, new_machines) =
               remap_machines machines_with_roms (sort_key fst (ld_machines data)) 0 Map.empty [];
             used_manufacturers =
               set (List.map_filter (\<lambda>(m, old_id). lm_manufacturer_id m) new_machines);
             (manufacturer_id_map, new_manufacturers) =
               number_ids (\<lambda>old_id. dict_get (ld_manufacturers data) old_id
                                       (Some (pystr_of ''Unknown'')))
                 (sorted_list_of_set used_manufacturers) 0 Map.empty [];
             used_rom_names =
               set (List.map_filter lr_name_id (ld_roms data)) \<union>
               set (List.map_filter lmr_name_id (ld_machine_roms data));
             (rom_name_id_map, new_rom_names) =
               number_ids (\<lambda>old_id. dict_get (ld_rom_names data) old_id [])
                 (sorted_list_of_set used_rom_names) 0 Map.empty [];
             new_machine_roms =
               sort_key (\<lambda>x. (rmr_rom_id x, rmr_machine_id x))
                 (List.map_filter
                    (\<lambda>mr. case (machine_id_map (lmr_machine_id mr), rom_id_map (lmr_rom_id mr)) of
                       (Some mid, Some rid) \<Rightarrow>
                         Some \<lparr> rmr_machine_id = mid, rmr_rom_id = rid,
                                rmr_name_id = remap_ref rom_name_id_map NULL_ID_24 (lmr_name_id mr) \<rparr>
                     | _ \<Rightarrow> None)
                    (ld_machine_roms data))
         in Inr \<lparr>
              rd_roms = map (\<lambda>(k, rom).
                  \<lparr> rr_old_id = lr_old_id rom, rr_sha1 = lr_sha1 rom,
                    rr_size_pow2 = lr_size_pow2 rom,
                    rr_name_id = remap_ref rom_name_id_map NULL_ID_24 (lr_name_id rom),
                    rr_new_id = rs_new_ids st k \<rparr>) (List.enumerate 0 (ld_roms data)),
              rd_machines = map (\<lambda>(m, old_id).
                  \<lparr> rm_name = lm_name m,
                    rm_cloneof_id = remap_ref machine_id_map NULL_ID_24 (lm_cloneof_id m),
                    rm_romof_id = remap_ref machine_id_map NULL_ID_24 (lm_romof_id m),
                    rm_description = lm_description m,
                    rm_year = lm_year m,
                    rm_manufacturer_id =
                      remap_ref manufacturer_id_map NULL_ID_16 (lm_manufacturer_id m),
                    rm_old_id = old_id \<rparr>) new_machines,
              rd_machine_roms = new_machine_roms,
              rd_manufacturers = new_manufacturers,
              rd_rom_names = new_rom_names,
              rd_size_index = rs_size_index st,
              rd_rom_id_map = rom_id_map \<rparr>))"

subsection \<open>\<open>build_strings_pool\<close> and \<open>build_descriptions_pool\<close>\<close>

text \<open>\<open>str.encode('utf-8')\<close>: one to four bytes for a code point; a surrogate (and a number
  that is no code point) is refused.\<close>

definition utf8_char :: "nat \<Rightarrow> error + blob" where
  "utf8_char c =
     (if c < 0x80 then Inr [of_nat c]
      else if c < 0x800 then Inr [of_nat (0xC0 + c div 64), of_nat (0x80 + c mod 64)]
      else if 0xD800 \<le> c \<and> c < 0xE000 then Inl ValueError
      else if c < 0x10000 then
        Inr [of_nat (0xE0 + c div 4096), of_nat (0x80 + c div 64 mod 64), of_nat (0x80 + c mod 64)]
      else if c < 0x110000 then
        Inr [of_nat (0xF0 + c div 262144), of_nat (0x80 + c div 4096 mod 64),
             of_nat (0x80 + c div 64 mod 64), of_nat (0x80 + c mod 64)]
      else Inl ValueError)"

definition utf8_encode :: "pystr \<Rightarrow> error + blob" where
  "utf8_encode s = (case emap utf8_char s of Inl e \<Rightarrow> Inl e | Inr bs \<Rightarrow> Inr (concat bs))"

text \<open>The set \<open>strings\<close> holds each value once. CPython seeds the hash of \<open>str\<close> anew in
  every process, so the order in which a run meets the elements of the set is that run's
  own: \<open>hash_order\<close> rearranges them. A name that is \<open>None\<close> (the schema lets a
  manufacturer's be \<open>NULL\<close>) cannot be ordered against a \<open>str\<close>, nor encoded.\<close>

fun pool_loop :: "pystr list \<Rightarrow> blob \<Rightarrow> (pystr \<rightharpoonup> nat) \<Rightarrow> error + blob \<times> (pystr \<rightharpoonup> nat)" where
  "pool_loop [] pool offset_map = Inr (pool, offset_map)"
| "pool_loop (s # rest) pool offset_map =
     (case utf8_encode s of
        Inl e \<Rightarrow> Inl e
      | Inr bs \<Rightarrow> pool_loop rest (pool @ bs @ [0]) (offset_map(s \<mapsto> length pool)))"

definition collect_strings :: "remapped \<Rightarrow> pystr option list" where
  "collect_strings data =
     rd_manufacturers data @ map Some (rd_rom_names data) @
     map (\<lambda>m. Some (rm_name m)) (rd_machines data)"

definition build_strings_pool ::
  "(pystr list \<Rightarrow> pystr list) \<Rightarrow> remapped \<Rightarrow> error + blob \<times> (pystr \<rightharpoonup> nat)" where
  "build_strings_pool hash_order data =
     (let strings = collect_strings data
      in if None \<in> set strings then Inl TypeError
         else pool_loop (sort (hash_order (remdups (List.map_filter id strings)))) [] Map.empty)"

fun descriptions_loop ::
  "remapped_machine list \<Rightarrow> blob \<Rightarrow> (nat \<times> nat) list \<Rightarrow> blob \<times> (nat \<times> nat) list" where
  "descriptions_loop [] pool desc_info = (pool, desc_info)"
| "descriptions_loop (m # rest) pool desc_info =
     (case rm_description m of
        None \<Rightarrow> descriptions_loop rest pool (desc_info @ [(0, 0)])
      | Some desc_data \<Rightarrow>
          if desc_data \<noteq> []
          then descriptions_loop rest (pool @ desc_data)
                 (desc_info @ [(length pool, length desc_data)])
          else descriptions_loop rest pool (desc_info @ [(0, 0)]))"

definition build_descriptions_pool :: "remapped \<Rightarrow> blob \<times> (nat \<times> nat) list" where
  "build_descriptions_pool data = descriptions_loop (rd_machines data) [] []"

subsection \<open>\<open>generate_binary\<close>\<close>

definition econcat :: "(error + blob) list \<Rightarrow> error + blob" where
  "econcat parts = (case emap id parts of Inl e \<Rightarrow> Inl e | Inr bs \<Rightarrow> Inr (concat bs))"

definition ROM_ENTRY_SIZE :: int where "ROM_ENTRY_SIZE = 23"

definition header_bytes :: "int list \<Rightarrow> int \<Rightarrow> int \<Rightarrow> error + blob" where
  "header_bytes words min_size_pow2 max_size_pow2 =
     (case econcat ([Inr MAGIC, pack_H VERSION, pack_B min_size_pow2, pack_B max_size_pow2] @
                    map pack_I words) of
        Inl e \<Rightarrow> Inl e
      | Inr header \<Rightarrow> Inr (header @ replicate (HEADER_SIZE - length header) 0))"

definition size_index_entry :: "(int \<rightharpoonup> nat \<times> nat) \<Rightarrow> int \<Rightarrow> error + blob" where
  "size_index_entry size_index size_pow2 =
     (let (start_idx, count) = map_get size_index size_pow2 (0, 0)
      in econcat [pack_I (int start_idx * ROM_ENTRY_SIZE),
                  pack_I ((int start_idx + int count) * ROM_ENTRY_SIZE)])"

definition rom_entry :: "remapped_rom \<Rightarrow> error + blob" where
  "rom_entry rom =
     econcat [Inr (if rr_sha1 rom \<noteq> [] then rr_sha1 rom else replicate 20 0),
              write_uint24 (rr_name_id rom)]"

definition list_get :: "'a list \<Rightarrow> nat \<Rightarrow> 'a \<Rightarrow> 'a" where
  "list_get xs i dflt = (if i < length xs then xs ! i else dflt)"

definition machine_entry ::
  "(pystr \<rightharpoonup> nat) \<Rightarrow> (nat \<times> nat) list \<Rightarrow> nat \<times> remapped_machine \<Rightarrow> error + blob" where
  "machine_entry string_offsets desc_info = (\<lambda>(new_id, m).
     (let name_off = map_get string_offsets (rm_name m) 0;
          (d_off, d_len) = list_get desc_info new_id (0, 0)
      in econcat [pack_I (int name_off), pack_I (int d_off), pack_H (int d_len),
                  write_uint24 (rm_cloneof_id m), write_uint24 (rm_romof_id m),
                  pack_H (rm_year m AND 0xFFFF), pack_H (rm_manufacturer_id m AND 0xFFFF)]))"

definition machine_rom_entry :: "remapped_machine_rom \<Rightarrow> error + blob" where
  "machine_rom_entry mr =
     econcat [write_uint24 (rmr_machine_id mr), write_uint24 (rmr_rom_id mr),
              write_uint24 (rmr_name_id mr)]"

text \<open>A manufacturer's name that is \<open>None\<close> never reaches this point: \<open>build_strings_pool\<close>
  has raised. \<open>string_offsets.get(None, 0)\<close> would be 0.\<close>

definition manufacturer_entry :: "(pystr \<rightharpoonup> nat) \<Rightarrow> pystr option \<Rightarrow> error + blob" where
  "manufacturer_entry string_offsets name =
     pack_I (int (case name of None \<Rightarrow> 0 | Some s \<Rightarrow> map_get string_offsets s 0))"

definition rom_name_entry :: "(pystr \<rightharpoonup> nat) \<Rightarrow> pystr \<Rightarrow> error + blob" where
  "rom_name_entry string_offsets name = pack_I (int (map_get string_offsets name 0))"

definition generate_binary ::
  "remapped \<Rightarrow> blob \<Rightarrow> (pystr \<rightharpoonup> nat) \<Rightarrow> blob \<Rightarrow> (nat \<times> nat) list \<Rightarrow> int \<Rightarrow> int \<Rightarrow>
   error + blob" where
  "generate_binary data strings_pool string_offsets desc_pool desc_info
       min_size_pow2 max_size_pow2 =
     (let num_sizes = max_size_pow2 - min_size_pow2 + 1;
          size_index_size = num_sizes * 8;
          roms_count = int (length (rd_roms data));
          machines_count = int (length (rd_machines data));
          machine_roms_count = int (length (rd_machine_roms data));
          manufacturers_count = int (length (rd_manufacturers data));
          rom_names_count = int (length (rd_rom_names data));
          size_index_offset = int HEADER_SIZE;
          roms_offset = size_index_offset + size_index_size;
          machines_offset = roms_offset + roms_count * 23;
          machine_roms_offset = machines_offset + machines_count * 20;
          manufacturers_offset = machine_roms_offset + machine_roms_count * 9;
          rom_names_offset = manufacturers_offset + manufacturers_count * 4;
          strings_offset = rom_names_offset + rom_names_count * 4;
          desc_offset = strings_offset + int (length strings_pool)
      in econcat
          ([header_bytes [roms_count, machines_count, machine_roms_count, manufacturers_count,
                          rom_names_count, size_index_offset, roms_offset, machines_offset,
                          machine_roms_offset, manufacturers_offset, rom_names_offset,
                          strings_offset, desc_offset] min_size_pow2 max_size_pow2] @
           map (size_index_entry (rd_size_index data)) [min_size_pow2 .. max_size_pow2] @
           map rom_entry (rd_roms data) @
           map (machine_entry string_offsets desc_info) (List.enumerate 0 (rd_machines data)) @
           map machine_rom_entry (rd_machine_roms data) @
           map (manufacturer_entry string_offsets) (rd_manufacturers data) @
           map (rom_name_entry string_offsets) (rd_rom_names data) @
           [Inr strings_pool, Inr desc_pool]))"

subsection \<open>\<open>main\<close>: from the catalogue to the blob\<close>

definition generate ::
  "(pystr list \<Rightarrow> pystr list) \<Rightarrow> conn \<Rightarrow> int \<Rightarrow> int \<Rightarrow> error + blob" where
  "generate hash_order db min_size_pow2 max_size_pow2 =
     (case remap_ids (load_database db min_size_pow2 max_size_pow2) min_size_pow2 max_size_pow2 of
        Inl e \<Rightarrow> Inl e
      | Inr data \<Rightarrow>
         (case build_strings_pool hash_order data of
            Inl e \<Rightarrow> Inl e
          | Inr (strings_pool, string_offsets) \<Rightarrow>
             (let (desc_pool, desc_info) = build_descriptions_pool data
              in generate_binary data strings_pool string_offsets desc_pool desc_info
                   min_size_pow2 max_size_pow2)))"

section \<open>\<open>build_mame_database.py\<close>\<close>

subsection \<open>Constants and library functions\<close>

definition MIN_ROM_SIZE :: int where "MIN_ROM_SIZE = 256"
definition MAX_ROM_SIZE :: int where "MAX_ROM_SIZE = 8 * 1024 * 1024"
definition NEOGEO_BIOS_THRESHOLD :: nat where "NEOGEO_BIOS_THRESHOLD = 4000"

text \<open>
  Two functions of Python's library stay parameters of the model: \<open>int\<close> on a \<open>str\<close>
  (\<open>None\<close> when it raises) and \<open>zlib.compress\<close> at level 9.
\<close>

record pylib =
  lib_int :: "pystr \<Rightarrow> int option"
  lib_compress :: "blob \<Rightarrow> blob"

text \<open>\<open>bytes.fromhex\<close>: pairs of hexadecimal digits, ASCII whitespace allowed between
  the pairs; anything else raises \<open>ValueError\<close>.\<close>

definition hex_digit :: "nat \<Rightarrow> nat option" where
  "hex_digit c =
     (if 48 \<le> c \<and> c \<le> 57 then Some (c - 48)
      else if 65 \<le> c \<and> c \<le> 70 then Some (c - 55)
      else if 97 \<le> c \<and> c \<le> 102 then Some (c - 87)
      else None)"

definition is_ascii_space :: "nat \<Rightarrow> bool" where
  "is_ascii_space c = (c = 32 \<or> (9 \<le> c \<and> c \<le> 13))"

fun bytes_fromhex :: "pystr \<Rightarrow> error + blob" where
  "bytes_fromhex [] = Inr []"
| "bytes_fromhex [c] = (if is_ascii_space c then Inr [] else Inl ValueError)"
| "bytes_fromhex (c # d # rest) =
     (if is_ascii_space c then bytes_fromhex (d # rest)
      else (case (hex_digit c, hex_digit d) of
              (Some h, Some l) \<Rightarrow>
                (case bytes_fromhex rest of
                   Inl e \<Rightarrow> Inl e
                 | Inr bs \<Rightarrow> Inr (of_nat (16 * h + l) # bs))
            | _ \<Rightarrow> Inl ValueError))"

text \<open>\<open>int(math.log2(size))\<close>, called on the powers of two that \<open>is_valid_rom_size\<close>
  lets through, where the floating-point logarithm is exact.\<close>

fun log2_nat :: "nat \<Rightarrow> nat" where
  "log2_nat n = (if n < 2 then 0 else Suc (log2_nat (n div 2)))"

definition int_log2 :: "int \<Rightarrow> int" where
  "int_log2 sz = int (log2_nat (nat sz))"

subsection \<open>The DAT document\<close>

text \<open>
  A document is the sequence of elements whose end tag \<open>iterparse\<close> reports. Of an
  element the script reads the tag, three attributes, the text of the first
  \<open>description\<close>, \<open>year\<close> and \<open>manufacturer\<close> children (\<open>None\<close> when the child is absent
  or has no text) and the \<open>rom\<close> children.
\<close>

record rom_elem =
  re_name :: "pystr option"
  re_size :: "pystr option"
  re_crc :: "pystr option"
  re_sha1 :: "pystr option"

record machine_elem =
  me_tag :: pystr
  me_name :: "pystr option"
  me_cloneof :: "pystr option"
  me_romof :: "pystr option"
  me_description :: "pystr option"
  me_year :: "pystr option"
  me_manufacturer :: "pystr option"
  me_roms :: "rom_elem list"

record machine_attrs =
  ma_name :: "pystr option"
  ma_cloneof :: "pystr option"
  ma_romof :: "pystr option"
  ma_description :: "pystr option"
  ma_year :: "int option"
  ma_manufacturer :: "pystr option"

record rom =
  r_name :: "pystr option"
  r_size :: int
  r_crc :: "pystr option"
  r_sha1 :: pystr

subsection \<open>\<open>is_valid_rom_size\<close> and \<open>parse_machine\<close>\<close>

definition is_valid_rom_size :: "int option \<Rightarrow> bool" where
  "is_valid_rom_size sz =
     (case sz of
        None \<Rightarrow> False
      | Some n \<Rightarrow>
          if n < MIN_ROM_SIZE \<or> n > MAX_ROM_SIZE then False
          else n > 0 \<and> (n AND (n - 1)) = 0)"

text \<open>A \<open>str\<close> is true when it is not empty; a failing \<open>int\<close> leaves \<open>None\<close>.\<close>

definition int_if_present :: "pylib \<Rightarrow> pystr option \<Rightarrow> int option" where
  "int_if_present lib text =
     (case text of None \<Rightarrow> None | Some t \<Rightarrow> if t \<noteq> [] then lib_int lib t else None)"

definition parse_rom :: "pylib \<Rightarrow> rom_elem \<Rightarrow> rom option" where
  "parse_rom lib rom_elem =
     (let sz = int_if_present lib (re_size rom_elem)
      in if \<not> is_valid_rom_size sz then None
         else (case (sz, re_sha1 rom_elem) of
                 (Some n, Some sha1) \<Rightarrow>
                   if sha1 = [] then None
                   else Some \<lparr> r_name = re_name rom_elem, r_size = n,
                               r_crc = re_crc rom_elem, r_sha1 = sha1 \<rparr>
               | _ \<Rightarrow> None))"

definition parse_machine :: "pylib \<Rightarrow> machine_elem \<Rightarrow> machine_attrs \<times> rom list" where
  "parse_machine lib machine_elem =
     (\<lparr> ma_name = me_name machine_elem,
        ma_cloneof = me_cloneof machine_elem,
        ma_romof = me_romof machine_elem,
        ma_description = me_description machine_elem,
        ma_year = (case me_year machine_elem of
                     None \<Rightarrow> None
                   | Some t \<Rightarrow> if t \<noteq> [] then lib_int lib (take 4 t) else None),
        ma_manufacturer = me_manufacturer machine_elem \<rparr>,
      List.map_filter (parse_rom lib) (me_roms machine_elem))"

subsection \<open>Statements on the catalogue\<close>

definition create_database :: conn where
  "create_database =
     \<lparr> manufacturers = [], rom_names = [], roms = [], machines = [], machine_roms = [],
       seq_manufacturers = 0, seq_rom_names = 0, seq_roms = 0, seq_machine_roms = 0 \<rparr>"

text \<open>\<open>AUTOINCREMENT\<close>: one more than the largest rowid the table has ever held.\<close>

definition next_rowid :: "int \<Rightarrow> int list \<Rightarrow> int" where
  "next_rowid seq ids = fold max ids seq + 1"

text \<open>\<open>INSERT INTO manufacturers (name)\<close>; the name is \<open>UNIQUE\<close>.\<close>

definition insert_manufacturer :: "pystr \<Rightarrow> conn \<Rightarrow> error + conn \<times> int" where
  "insert_manufacturer name db =
     (if Some name \<in> mf_name ` set (manufacturers db) then Inl IntegrityError
      else (let new_id = next_rowid (seq_manufacturers db) (map mf_id (manufacturers db))
            in Inr (db\<lparr> manufacturers := manufacturers db @ [\<lparr> mf_id = new_id, mf_name = Some name \<rparr>],
                        seq_manufacturers := new_id \<rparr>, new_id)))"

text \<open>\<open>INSERT INTO rom_names (name)\<close>; the name is \<open>UNIQUE NOT NULL\<close>.\<close>

definition insert_rom_name :: "pystr option \<Rightarrow> conn \<Rightarrow> error + conn \<times> int" where
  "insert_rom_name name db =
     (case name of
        None \<Rightarrow> Inl IntegrityError
      | Some n \<Rightarrow>
          if n \<in> rn_name ` set (rom_names db) then Inl IntegrityError
          else (let new_id = next_rowid (seq_rom_names db) (map rn_id (rom_names db))
                in Inr (db\<lparr> rom_names := rom_names db @ [\<lparr> rn_id = new_id, rn_name = n \<rparr>],
                            seq_rom_names := new_id \<rparr>, new_id)))"

definition insert_rom :: "blob \<Rightarrow> blob option \<Rightarrow> int \<Rightarrow> int \<Rightarrow> conn \<Rightarrow> conn \<times> int" where
  "insert_rom sha1_bin crc_bin size_pow2 name_id db =
     (let new_id = next_rowid (seq_roms db) (map rom_id (roms db))
      in (db\<lparr> roms := roms db @ [\<lparr> rom_id = new_id, rom_sha1 = Some sha1_bin, rom_crc = crc_bin,
                                    rom_size_pow2 = Some size_pow2, rom_name_id = Some name_id \<rparr>],
              seq_roms := new_id \<rparr>, new_id))"

text \<open>\<open>INSERT INTO machines\<close>: \<open>id\<close> is the primary key, \<open>name\<close> is \<open>UNIQUE\<close>, and
  \<open>year\<close> is checked to lie in \<open>0..65535\<close> when it is not \<open>NULL\<close>.\<close>

definition insert_machine :: "machine_row \<Rightarrow> conn \<Rightarrow> error + conn" where
  "insert_machine row db =
     (if m_id row \<in> m_id ` set (machines db) \<or> m_name row \<in> m_name ` set (machines db)
         \<or> (case m_year row of None \<Rightarrow> False | Some y \<Rightarrow> \<not> (y \<ge> 0 \<and> y \<le> 65535))
      then Inl IntegrityError
      else Inr (db\<lparr> machines := machines db @ [row] \<rparr>))"

definition insert_machine_rom :: "int \<times> int \<times> int option \<Rightarrow> conn \<Rightarrow> conn" where
  "insert_machine_rom = (\<lambda>(machine_id, rid, name_id) db.
     (let new_id = next_rowid (seq_machine_roms db) (map mr_id (machine_roms db))
      in db\<lparr> machine_roms := machine_roms db @
                [\<lparr> mr_id = new_id, mr_machine_id = machine_id, mr_rom_id = rid,
                   mr_name_id = name_id \<rparr>],
             seq_machine_roms := new_id \<rparr>))"

subsection \<open>\<open>process_dat_file\<close>\<close>

text \<open>What one call of \<open>process_dat_file\<close> reads and changes: the catalogue, the four
  caches that \<open>main\<close> hands from call to call, and the last machine id.\<close>

record build_state =
  bs_conn :: conn
  manufacturers_cache :: "pystr \<rightharpoonup> int"
  rom_names_cache :: "pystr option \<rightharpoonup> int"
  roms_cache :: "pystr \<rightharpoonup> int \<times> int"
  existing_machines :: "pystr set"
  machine_id :: int

record pending_machine =
  pm_id :: int
  pm_name :: pystr
  pm_cloneof :: "pystr option"
  pm_romof :: "pystr option"
  pm_desc :: "blob option"
  pm_year :: "int option"
  pm_manuf_id :: "int option"

record dat_state = build_state +
  machines_data :: "pending_machine list"
  machine_roms_data :: "(int \<times> int \<times> int option) list"

text \<open>The body of \<open>for rom in roms\<close>.\<close>

definition process_rom :: "rom \<Rightarrow> dat_state \<Rightarrow> error + dat_state" where
  "process_rom rm st =
     (let sha1 = r_sha1 rm; rom_name = r_name rm
      in case (case rom_names_cache st rom_name of
                 Some name_id \<Rightarrow> Inr (st, name_id)
               | None \<Rightarrow>
                  (case insert_rom_name rom_name (bs_conn st) of
                     Inl e \<Rightarrow> Inl e
                   | Inr (db, new_id) \<Rightarrow>
                       Inr (st\<lparr> bs_conn := db,
                                rom_names_cache := (rom_names_cache st)(rom_name \<mapsto> new_id) \<rparr>,
                            new_id))) of
           Inl e \<Rightarrow> Inl e
         | Inr (st1, name_id) \<Rightarrow>
            (case (case roms_cache st1 sha1 of
                     Some (rid, _) \<Rightarrow> Inr (st1, rid)
                   | None \<Rightarrow>
                      (case bytes_fromhex sha1 of
                         Inl e \<Rightarrow> Inl e
                       | Inr sha1_bin \<Rightarrow>
                          (case (case r_crc rm of
                                   None \<Rightarrow> Inr None
                                 | Some c \<Rightarrow>
                                     if c = [] then Inr None
                                     else (case bytes_fromhex c of
                                             Inl e \<Rightarrow> Inl e
                                           | Inr b \<Rightarrow> Inr (Some b))) of
                             Inl e \<Rightarrow> Inl e
                           | Inr crc_bin \<Rightarrow>
                               (let size_pow2 = int_log2 (r_size rm);
                                    (db, new_id) =
                                      insert_rom sha1_bin crc_bin size_pow2 name_id (bs_conn st1)
                                in Inr (st1\<lparr> bs_conn := db,
                                             roms_cache := (roms_cache st1)(sha1 \<mapsto> (new_id, name_id)) \<rparr>,
                                        new_id))))) of
               Inl e \<Rightarrow> Inl e
             | Inr (st2, rid) \<Rightarrow>
                 Inr (st2\<lparr> machine_roms_data :=
                             machine_roms_data st2 @ [(machine_id st2, rid, Some name_id)] \<rparr>)))"

fun process_roms :: "rom list \<Rightarrow> dat_state \<Rightarrow> error + dat_state" where
  "process_roms [] st = Inr st"
| "process_roms (rm # rest) st =
     (case process_rom rm st of Inl e \<Rightarrow> Inl e | Inr st1 \<Rightarrow> process_roms rest st1)"

text \<open>The body of the loop over the elements of the document.\<close>

definition process_elem :: "pylib \<Rightarrow> machine_elem \<Rightarrow> dat_state \<Rightarrow> error + dat_state" where
  "process_elem lib elem st =
     (if me_tag elem \<noteq> pystr_of ''machine'' \<and> me_tag elem \<noteq> pystr_of ''game'' then Inr st
      else
       (let (machine_attrs, rms) = parse_machine lib elem
        in case ma_name machine_attrs of
             None \<Rightarrow> Inr st
           | Some name \<Rightarrow>
              if rms = [] \<or> name = [] then Inr st
              else if name \<in> existing_machines st then Inr st
              else
               (let st1 = st\<lparr> machine_id := machine_id st + 1,
                              existing_machines := insert name (existing_machines st) \<rparr>
                in case (case ma_manufacturer machine_attrs of
                           None \<Rightarrow> Inr (st1, None)
                         | Some manuf_name \<Rightarrow>
                             if manuf_name = [] then Inr (st1, None)
                             else (case manufacturers_cache st1 manuf_name of
                                     Some manuf_id \<Rightarrow> Inr (st1, Some manuf_id)
                                   | None \<Rightarrow>
                                      (case insert_manufacturer manuf_name (bs_conn st1) of
                                         Inl e \<Rightarrow> Inl e
                                       | Inr (db, new_id) \<Rightarrow>
                                           Inr (st1\<lparr> bs_conn := db,
                                                     manufacturers_cache :=
                                                       (manufacturers_cache st1)(manuf_name \<mapsto> new_id) \<rparr>,
                                                Some new_id)))) of
                     Inl e \<Rightarrow> Inl e
                   | Inr (st2, manuf_id) \<Rightarrow>
                      (case (case ma_description machine_attrs of
                               None \<Rightarrow> Inr None
                             | Some desc \<Rightarrow>
                                 if desc = [] then Inr None
                                 else (case utf8_encode desc of
                                         Inl e \<Rightarrow> Inl e
                                       | Inr b \<Rightarrow> Inr (Some (lib_compress lib b)))) of
                         Inl e \<Rightarrow> Inl e
                       | Inr desc_blob \<Rightarrow>
                           process_roms rms
                             (st2\<lparr> machines_data := machines_data st2 @
                                     [\<lparr> pm_id = machine_id st2, pm_name = name,
                                        pm_cloneof = ma_cloneof machine_attrs,
                                        pm_romof = ma_romof machine_attrs,
                                        pm_desc = desc_blob,
                                        pm_year = ma_year machine_attrs,
                                        pm_manuf_id = manuf_id \<rparr>] \<rparr>)))))"

fun process_elems :: "pylib \<Rightarrow> machine_elem list \<Rightarrow> dat_state \<Rightarrow> error + dat_state" where
  "process_elems lib [] st = Inr st"
| "process_elems lib (elem # rest) st =
     (case process_elem lib elem st of Inl e \<Rightarrow> Inl e | Inr st1 \<Rightarrow> process_elems lib rest st1)"

text \<open>\<open>name_to_id\<close>: the machines of this document, then the machines of the catalogue.\<close>

definition name_to_id_of :: "pending_machine list \<Rightarrow> conn \<Rightarrow> (pystr \<rightharpoonup> int)" where
  "name_to_id_of pending db =
     fold (\<lambda>row d. d(m_name row \<mapsto> m_id row)) (machines db)
       (fold (\<lambda>m d. d(pm_name m \<mapsto> pm_id m)) pending Map.empty)"

definition resolve :: "(pystr \<rightharpoonup> int) \<Rightarrow> pystr option \<Rightarrow> int option" where
  "resolve name_to_id ref = (case ref of None \<Rightarrow> None | Some n \<Rightarrow> name_to_id n)"

fun insert_machines :: "(pystr \<rightharpoonup> int) \<Rightarrow> pending_machine list \<Rightarrow> conn \<Rightarrow> error + conn" where
  "insert_machines name_to_id [] db = Inr db"
| "insert_machines name_to_id (m # rest) db =
     (case insert_machine
             \<lparr> m_id = pm_id m, m_name = pm_name m,
               m_cloneof_id = resolve name_to_id (pm_cloneof m),
               m_romof_id = resolve name_to_id (pm_romof m),
               m_description = pm_desc m, m_year = pm_year m,
               m_manufacturer_id = pm_manuf_id m \<rparr> db of
        Inl e \<Rightarrow> Inl e
      | Inr db1 \<Rightarrow> insert_machines name_to_id rest db1)"

definition process_dat_file :: "pylib \<Rightarrow> machine_elem list \<Rightarrow> build_state \<Rightarrow> error + build_state" where
  "process_dat_file lib dat st0 =
     (case process_elems lib dat
             (build_state.extend st0 \<lparr> machines_data = [], machine_roms_data = [] \<rparr>) of
        Inl e \<Rightarrow> Inl e
      | Inr st \<Rightarrow>
         (let name_to_id = name_to_id_of (machines_data st) (bs_conn st)
          in case insert_machines name_to_id (machines_data st) (bs_conn st) of
               Inl e \<Rightarrow> Inl e
             | Inr db \<Rightarrow>
                 Inr (build_state.truncate
                        (st\<lparr> bs_conn := fold insert_machine_rom (machine_roms_data st) db \<rparr>))))"

subsection \<open>\<open>extract_neogeo_bios\<close>\<close>

text \<open>
  The query \<open>SELECT r.id, COUNT(mr.machine_id) ... JOIN ... GROUP BY mr.rom_id HAVING cnt >
  NEOGEO_BIOS_THRESHOLD\<close>: \<open>joined_rom_ids\<close> lists \<open>mr.rom_id\<close> (which is \<open>r.id\<close>) over the
  rows of the join; a group is the rows with one value, and SQLite emits the groups in
  ascending order of it.
\<close>

definition joined_rom_ids :: "conn \<Rightarrow> int list" where
  "joined_rom_ids db =
     concat (map (\<lambda>mr. map (\<lambda>r. mr_rom_id mr) (filter (\<lambda>r. rom_id r = mr_rom_id mr) (roms db)))
               (machine_roms db))"

definition find_bios_rom_ids :: "conn \<Rightarrow> int list" where
  "find_bios_rom_ids db =
     (let joined = joined_rom_ids db
      in filter (\<lambda>g. length (filter (\<lambda>x. x = g) joined) > NEOGEO_BIOS_THRESHOLD)
           (sort (remdups joined)))"

definition neogeo_description :: pystr where
  "neogeo_description =
     pystr_of ''Neo-Geo BIOS ROMs - Shared system ROMs for all Neo-Geo games (MVS/AES)''"

text \<open>\<open>SELECT MAX(id) FROM machines\<close>, then \<open>or 0\<close>.\<close>

definition max_machine_id :: "conn \<Rightarrow> int" where
  "max_machine_id db =
     (case map m_id (machines db) of [] \<Rightarrow> 0 | i # ids \<Rightarrow> fold max ids i)"

text \<open>The loop that links the BIOS ROMs to the new machine: the name is the one of the
  first row of \<open>machine_roms\<close> for the ROM (\<open>LIMIT 1\<close>); \<open>fetchone()[0]\<close> raises when
  there is no such row.\<close>

fun add_bios_links :: "int \<Rightarrow> int list \<Rightarrow> conn \<Rightarrow> error + conn" where
  "add_bios_links neogeo_id [] db = Inr db"
| "add_bios_links neogeo_id (rid # rest) db =
     (case find (\<lambda>mr. mr_rom_id mr = rid) (machine_roms db) of
        None \<Rightarrow> Inl TypeError
      | Some row \<Rightarrow>
          add_bios_links neogeo_id rest
            (insert_machine_rom (neogeo_id, rid, mr_name_id row) db))"

definition extract_neogeo_bios :: "pylib \<Rightarrow> conn \<Rightarrow> error + conn" where
  "extract_neogeo_bios lib db =
     (if pystr_of ''neogeo_bios'' \<in> m_name ` set (machines db) then Inr db
      else
       (let bios_rom_ids = find_bios_rom_ids db
        in if bios_rom_ids = [] then Inr db
           else
            (case (case find (\<lambda>r. mf_name r = Some (pystr_of ''SNK'')) (manufacturers db) of
                     Some row \<Rightarrow> Inr (db, mf_id row)
                   | None \<Rightarrow> insert_manufacturer (pystr_of ''SNK'') db) of
               Inl e \<Rightarrow> Inl e
             | Inr (db1, snk_id) \<Rightarrow>
                (case utf8_encode neogeo_description of
                   Inl e \<Rightarrow> Inl e
                 | Inr b \<Rightarrow>
                    (let desc = lib_compress lib b;
                         max_id = max_machine_id db1;
                         neogeo_id = max_id + 1
                     in case insert_machine
                               \<lparr> m_id = neogeo_id, m_name = pystr_of ''neogeo_bios'',
                                 m_cloneof_id = None, m_romof_id = None,
                                 m_description = Some desc, m_year = Some 1990,
                                 m_manufacturer_id = Some snk_id \<rparr> db1 of
                          Inl e \<Rightarrow> Inl e
                        | Inr db2 \<Rightarrow>
                           (case add_bios_links neogeo_id bios_rom_ids db2 of
                              Inl e \<Rightarrow> Inl e
                            | Inr db3 \<Rightarrow>
                                Inr (db3\<lparr> machine_roms :=
                                       filter (\<lambda>mr. \<not> (mr_rom_id mr \<in> set bios_rom_ids \<and>
                                                         mr_machine_id mr \<noteq> neogeo_id))
                                         (machine_roms db3) \<rparr>)))))))"

subsection \<open>\<open>cleanup_orphans\<close>\<close>

definition cleanup_orphans :: "conn \<Rightarrow> conn" where
  "cleanup_orphans db =
     (let db1 = db\<lparr> machines :=
                      filter (\<lambda>m. m_id m \<in> mr_machine_id ` set (machine_roms db)) (machines db) \<rparr>;
          db2 = db1\<lparr> rom_names :=
                      filter (\<lambda>n. rn_id n \<in> set (List.map_filter rom_name_id (roms db1)) \<or>
                                   rn_id n \<in> set (List.map_filter mr_name_id (machine_roms db1)))
                        (rom_names db1) \<rparr>;
          db3 = db2\<lparr> manufacturers :=
                      filter (\<lambda>f. mf_id f \<in> set (List.map_filter m_manufacturer_id (machines db2)))
                        (manufacturers db2) \<rparr>;
          db4 = db3\<lparr> machines :=
                      map (\<lambda>m. case m_cloneof_id m of
                                  None \<Rightarrow> m
                                | Some c \<Rightarrow> if c \<notin> m_id ` set (machines db3)
                                            then m\<lparr> m_cloneof_id := None \<rparr> else m)
                        (machines db3) \<rparr>;
          db5 = db4\<lparr> machines :=
                      map (\<lambda>m. case m_romof_id m of
                                  None \<Rightarrow> m
                                | Some c \<Rightarrow> if c \<notin> m_id ` set (machines db4)
                                            then m\<lparr> m_romof_id := None \<rparr> else m)
                        (machines db4) \<rparr>
      in db5)"

subsection \<open>\<open>main\<close>: from the documents to the catalogue\<close>

definition initial_state :: build_state where
  "initial_state =
     \<lparr> bs_conn = create_database, manufacturers_cache = Map.empty, rom_names_cache = Map.empty,
       roms_cache = Map.empty, existing_machines = {}, machine_id = 0 \<rparr>"

fun process_dat_files :: "pylib \<Rightarrow> machine_elem list list \<Rightarrow> build_state \<Rightarrow> error + build_state" where
  "process_dat_files lib [] st = Inr st"
| "process_dat_files lib (dat # rest) st =
     (case process_dat_file lib dat st of
        Inl e \<Rightarrow> Inl e
      | Inr st1 \<Rightarrow> process_dat_files lib rest st1)"

text \<open>The catalogue once every document is read, before the two passes.\<close>

definition ingest :: "pylib \<Rightarrow> machine_elem list list \<Rightarrow> error + conn" where
  "ingest lib dats =
     (case process_dat_files lib dats initial_state of
        Inl e \<Rightarrow> Inl e
      | Inr st \<Rightarrow> Inr (bs_conn st))"

text \<open>The two passes that \<open>main\<close> runs after the documents, in this order.\<close>

definition postprocess :: "pylib \<Rightarrow> conn \<Rightarrow> error + conn" where
  "postprocess lib db =
     (case extract_neogeo_bios lib db of
        Inl e \<Rightarrow> Inl e
      | Inr db1 \<Rightarrow> Inr (cleanup_orphans db1))"

definition build :: "pylib \<Rightarrow> machine_elem list list \<Rightarrow> error + conn" where
  "build lib dats =
     (case ingest lib dats of
        Inl e \<Rightarrow> Inl e
      | Inr db \<Rightarrow> postprocess lib db)"

section \<open>Notions used to state the properties\<close>

text \<open>The catalogue in which every machine without a year has the year 0 instead.\<close>

definition null_years_as_zero :: "conn \<Rightarrow> conn" where
  "null_years_as_zero db =
     db\<lparr> machines :=
           map (\<lambda>r. case m_year r of None \<Rightarrow> r\<lparr> m_year := Some 0 \<rparr> | Some y \<Rightarrow> r) (machines db) \<rparr>"

text \<open>The 0-based position of the \<open>k\<close>-th entry of a table within its size class, the
  table being given by the \<open>size_pow2\<close> of its entries.\<close>

definition class_index :: "int list \<Rightarrow> nat \<Rightarrow> nat" where
  "class_index sizes k = length (filter (\<lambda>s. s = sizes ! k) (take k sizes))"

text \<open>The strings that the remapped catalogue refers to: the names of its manufacturers,
  ROM names and machines. \<open>pool_strings\<close> has each of them once, in lexicographic order.\<close>

definition referenced_strings :: "remapped \<Rightarrow> pystr set" where
  "referenced_strings data =
     {n. Some n \<in> set (rd_manufacturers data)} \<union> set (rd_rom_names data) \<union>
     rm_name ` set (rd_machines data)"

definition pool_strings :: "remapped \<Rightarrow> pystr list" where
  "pool_strings data = sorted_list_of_set (referenced_strings data)"

text \<open>Byte strings laid end to end, each followed by one NUL byte.\<close>

definition nul_terminated :: "blob list \<Rightarrow> blob" where
  "nul_terminated encs = concat (map (\<lambda>b. b @ [0]) encs)"

text \<open>
  Reading the blob the way the emitted C header does (\<open>MrdbHeader\<close> and the
  \<open>mrdb_get_*\<close> accessors): after its first eight bytes the header holds thirteen 32-bit
  little-endian words, five counts and then eight offsets, and a table is the run of
  fixed-size entries that starts at its offset. Words 0, 1, 2 count the ROMs, the machines
  and the MachineRoms; words 6, 7, 8 are the offsets of their tables.
\<close>

definition bytes_at :: "blob \<Rightarrow> nat \<Rightarrow> nat \<Rightarrow> blob" where
  "bytes_at data offset n = take n (drop offset data)"

definition header_word :: "blob \<Rightarrow> nat \<Rightarrow> nat" where
  "header_word data i = nat (le_int (bytes_at data (8 + 4 * i) 4))"

definition table_entries :: "blob \<Rightarrow> nat \<Rightarrow> nat \<Rightarrow> nat \<Rightarrow> blob list" where
  "table_entries data count_word offset_word entry_size =
     map (\<lambda>k. bytes_at data (header_word data offset_word + entry_size * k) entry_size)
       [0..<header_word data count_word]"

definition blob_roms :: "blob \<Rightarrow> blob list" where
  "blob_roms data = table_entries data 0 6 23"

definition blob_machines :: "blob \<Rightarrow> blob list" where
  "blob_machines data = table_entries data 1 7 20"

definition blob_machine_roms :: "blob \<Rightarrow> blob list" where
  "blob_machine_roms data = table_entries data 2 8 9"

text \<open>The fields of the entries that the properties speak of: the SHA-1 of a ROM entry
  (\<open>MrdbRom.sha1\<close>), the year of a machine entry (\<open>MrdbMachine.year\<close>, at byte 16) and
  the two ids of a MachineRom entry, read with \<open>read_uint24\<close>.\<close>

definition entry_sha1 :: "blob \<Rightarrow> blob" where
  "entry_sha1 e = take 20 e"

definition entry_year :: "blob \<Rightarrow> int" where
  "entry_year e = le_int (bytes_at e 16 2)"

definition entry_machine_id :: "blob \<Rightarrow> int" where
  "entry_machine_id e = read_uint24 e 0"

definition entry_rom_id :: "blob \<Rightarrow> int" where
  "entry_rom_id e = read_uint24 e 3"

text \<open>The Remapper followed by the PoolBuilder: the two pools of a loaded catalogue.\<close>

definition build_pools ::
  "(pystr list \<Rightarrow> pystr list) \<Rightarrow> loaded \<Rightarrow> int \<Rightarrow> int \<Rightarrow> error + blob \<times> blob" where
  "build_pools hash_order data min_size_pow2 max_size_pow2 =
     (case remap_ids data min_size_pow2 max_size_pow2 of
        Inl e \<Rightarrow> Inl e
      | Inr rd \<Rightarrow>
         (case build_strings_pool hash_order rd of
            Inl e \<Rightarrow> Inl e
          | Inr (strings_pool, string_offsets) \<Rightarrow>
              Inr (strings_pool, fst (build_descriptions_pool rd))))"

section \<open>Concrete inputs\<close>

text \<open>\<open>int\<close> on a string of ASCII digits, which is all the inputs below hold; the library
  of the examples compresses nothing.\<close>

fun digits_value :: "nat list \<Rightarrow> int \<Rightarrow> int option" where
  "digits_value [] acc = Some acc"
| "digits_value (c # cs) acc =
     (if 48 \<le> c \<and> c \<le> 57 then digits_value cs (10 * acc + int (c - 48)) else None)"

definition decimal_int :: "pystr \<Rightarrow> int option" where
  "decimal_int s = (if s = [] then None else digits_value s 0)"

definition example_lib :: pylib where
  "example_lib = \<lparr> lib_int = decimal_int, lib_compress = (\<lambda>b. b) \<rparr>"

definition example_sha1 :: "nat \<Rightarrow> blob" where
  "example_sha1 n = of_nat n # replicate 19 0"

text \<open>Two machines of one manufacturer that share a ROM of 16 KiB; the first has no year.\<close>

definition example_db :: conn where
  "example_db =
     \<lparr> manufacturers = [\<lparr> mf_id = 1, mf_name = Some (pystr_of ''Namco'') \<rparr>],
       rom_names = [\<lparr> rn_id = 1, rn_name = pystr_of ''a.rom'' \<rparr>,
                    \<lparr> rn_id = 2, rn_name = pystr_of ''b.rom'' \<rparr>],
       roms = [\<lparr> rom_id = 1, rom_sha1 = Some (example_sha1 7), rom_crc = None,
                 rom_size_pow2 = Some 14, rom_name_id = Some 1 \<rparr>,
               \<lparr> rom_id = 2, rom_sha1 = Some (example_sha1 3), rom_crc = None,
                 rom_size_pow2 = Some 14, rom_name_id = Some 2 \<rparr>],
       machines = [\<lparr> m_id = 1, m_name = pystr_of ''pacman'', m_cloneof_id = None,
                     m_romof_id = None, m_description = Some [1, 2, 3], m_year = None,
                     m_manufacturer_id = Some 1 \<rparr>,
                   \<lparr> m_id = 2, m_name = pystr_of ''puckman'', m_cloneof_id = Some 1,
                     m_romof_id = None, m_description = None, m_year = Some 1980,
                     m_manufacturer_id = Some 1 \<rparr>],
       machine_roms = [\<lparr> mr_id = 1, mr_machine_id = 1, mr_rom_id = 1, mr_name_id = Some 1 \<rparr>,
                       \<lparr> mr_id = 2, mr_machine_id = 2, mr_rom_id = 1, mr_name_id = Some 2 \<rparr>,
                       \<lparr> mr_id = 3, mr_machine_id = 2, mr_rom_id = 2, mr_name_id = Some 2 \<rparr>],
       seq_manufacturers = 1, seq_rom_names = 2, seq_roms = 2, seq_machine_roms = 3 \<rparr>"

text \<open>A remapped catalogue whose strings include the empty one.\<close>

definition example_remapped :: remapped where
  "example_remapped =
     \<lparr> rd_roms = [],
       rd_machines = [\<lparr> rm_name = pystr_of ''pacman'', rm_cloneof_id = 0xFFFFFF,
                        rm_romof_id = 0xFFFFFF, rm_description = None, rm_year = 1980,
                        rm_manufacturer_id = 0, rm_old_id = 1 \<rparr>],
       rd_machine_roms = [],
       rd_manufacturers = [Some (pystr_of ''Namco'')],
       rd_rom_names = [pystr_of ''a.rom'', []],
       rd_size_index = Map.empty,
       rd_rom_id_map = Map.empty \<rparr>"

text \<open>A document in which two machines name the same SHA-1, once in lower and once in upper
  case, for a ROM of 2 KiB.\<close>

definition case_rom :: "string \<Rightarrow> string \<Rightarrow> rom_elem" where
  "case_rom name sha1 =
     \<lparr> re_name = Some (pystr_of name), re_size = Some (pystr_of ''2048''), re_crc = None,
       re_sha1 = Some (pystr_of sha1) \<rparr>"

definition example_machine :: "string \<Rightarrow> rom_elem list \<Rightarrow> machine_elem" where
  "example_machine name rom_elems =
     \<lparr> me_tag = pystr_of ''machine'', me_name = Some (pystr_of name), me_cloneof = None,
       me_romof = None, me_description = None, me_year = None, me_manufacturer = None,
       me_roms = rom_elems \<rparr>"

definition case_dat :: "machine_elem list" where
  "case_dat =
     [example_machine ''alpha'' [case_rom ''a.rom'' ''aaaaaaaaaaaaaaaaaaaaaaaaaaaaaaaaaaaaaaaa''],
      example_machine ''beta'' [case_rom ''b.rom'' ''AAAAAAAAAAAAAAAAAAAAAAAAAAAAAAAAAAAAAAAA'']]"

definition case_db :: conn where
  "case_db =
     \<lparr> manufacturers = [],
       rom_names = [\<lparr> rn_id = 1, rn_name = pystr_of ''a.rom'' \<rparr>,
                    \<lparr> rn_id = 2, rn_name = pystr_of ''b.rom'' \<rparr>],
       roms = [\<lparr> rom_id = 1, rom_sha1 = Some (replicate 20 0xAA), rom_crc = None,
                 rom_size_pow2 = Some 11, rom_name_id = Some 1 \<rparr>,
               \<lparr> rom_id = 2, rom_sha1 = Some (replicate 20 0xAA), rom_crc = None,
                 rom_size_pow2 = Some 11, rom_name_id = Some 2 \<rparr>],
       machines = [\<lparr> m_id = 1, m_name = pystr_of ''alpha'', m_cloneof_id = None,
                     m_romof_id = None, m_description = None, m_year = None,
                     m_manufacturer_id = None \<rparr>,
                   \<lparr> m_id = 2, m_name = pystr_of ''beta'', m_cloneof_id = None,
                     m_romof_id = None, m_description = None, m_year = None,
                     m_manufacturer_id = None \<rparr>],
       machine_roms = [\<lparr> mr_id = 1, mr_machine_id = 1, mr_rom_id = 1, mr_name_id = Some 1 \<rparr>,
                       \<lparr> mr_id = 2, mr_machine_id = 2, mr_rom_id = 2, mr_name_id = Some 2 \<rparr>],
       seq_manufacturers = 0, seq_rom_names = 2, seq_roms = 2, seq_machine_roms = 2 \<rparr>"

text \<open>A \<open>rom\<close> element without a \<open>sha1\<close> attribute, and the catalogue that the build makes of
  one machine whose only ROM has the \<open>sha1\<close> attribute \<open>ab\<close>.\<close>

definition nodump_rom :: rom_elem where
  "nodump_rom =
     \<lparr> re_name = Some (pystr_of ''n.rom''), re_size = Some (pystr_of ''2048''), re_crc = None,
       re_sha1 = None \<rparr>"

definition short_db :: conn where
  "short_db =
     \<lparr> manufacturers = [],
       rom_names = [\<lparr> rn_id = 1, rn_name = pystr_of ''a.rom'' \<rparr>],
       roms = [\<lparr> rom_id = 1, rom_sha1 = Some [0xAB], rom_crc = None,
                 rom_size_pow2 = Some 11, rom_name_id = Some 1 \<rparr>],
       machines = [\<lparr> m_id = 1, m_name = pystr_of ''alpha'', m_cloneof_id = None,
                     m_romof_id = None, m_description = None, m_year = None,
                     m_manufacturer_id = None \<rparr>],
       machine_roms = [\<lparr> mr_id = 1, mr_machine_id = 1, mr_rom_id = 1, mr_name_id = Some 1 \<rparr>],
       seq_manufacturers = 0, seq_rom_names = 1, seq_roms = 1, seq_machine_roms = 1 \<rparr>"

text \<open>The blobs that \<open>generate\<close> yields for \<open>example_db\<close> and for \<open>case_db\<close> with the
  default band 11..23: the header of 64 bytes, 13 size-index entries, then the tables
  and the two pools.\<close>

definition example_blob :: blob where
  "example_blob =
     [77, 82, 68, 66, 1, 0, 11, 23, 2, 0, 0, 0, 2, 0, 0, 0, 3, 0, 0, 0, 1, 0, 0, 0, 2, 0,
      0, 0, 64, 0, 0, 0, 168, 0, 0, 0, 214, 0, 0, 0, 254, 0, 0, 0, 25, 1, 0, 0, 29, 1, 0,
      0, 37, 1, 0, 0, 70, 1, 0, 0, 0, 0, 0, 0, 0, 0, 0, 0, 0, 0, 0, 0, 0, 0, 0, 0, 0, 0, 0,
      0, 0, 0, 0, 0, 0, 0, 0, 0, 0, 0, 0, 0, 46, 0, 0, 0, 46, 0, 0, 0, 46, 0, 0, 0, 46, 0,
      0, 0, 46, 0, 0, 0, 46, 0, 0, 0, 46, 0, 0, 0, 46, 0, 0, 0, 46, 0, 0, 0, 46, 0, 0, 0,
      46, 0, 0, 0, 46, 0, 0, 0, 46, 0, 0, 0, 46, 0, 0, 0, 46, 0, 0, 0, 46, 0, 0, 0, 46, 0,
      0, 0, 46, 0, 0, 0, 46, 0, 0, 0, 3, 0, 0, 0, 0, 0, 0, 0, 0, 0, 0, 0, 0, 0, 0, 0, 0, 0,
      0, 0, 1, 0, 0, 7, 0, 0, 0, 0, 0, 0, 0, 0, 0, 0, 0, 0, 0, 0, 0, 0, 0, 0, 0, 0, 0, 0,
      18, 0, 0, 0, 0, 0, 0, 0, 3, 0, 255, 255, 255, 255, 255, 255, 0, 0, 0, 0, 25, 0, 0, 0,
      0, 0, 0, 0, 0, 0, 0, 0, 0, 255, 255, 255, 188, 7, 0, 0, 1, 0, 0, 0, 0, 14, 1, 0, 0,
      0, 0, 0, 1, 0, 14, 0, 0, 0, 1, 0, 0, 1, 0, 14, 1, 0, 0, 0, 0, 0, 0, 6, 0, 0, 0, 12,
      0, 0, 0, 78, 97, 109, 99, 111, 0, 97, 46, 114, 111, 109, 0, 98, 46, 114, 111, 109, 0,
      112, 97, 99, 109, 97, 110, 0, 112, 117, 99, 107, 109, 97, 110, 0, 1, 2, 3]"

definition case_blob :: blob where
  "case_blob =
     [77, 82, 68, 66, 1, 0, 11, 23, 2, 0, 0, 0, 2, 0, 0, 0, 2, 0, 0, 0, 0, 0, 0, 0, 2, 0,
      0, 0, 64, 0, 0, 0, 168, 0, 0, 0, 214, 0, 0, 0, 254, 0, 0, 0, 16, 1, 0, 0, 16, 1, 0,
      0, 24, 1, 0, 0, 47, 1, 0, 0, 0, 0, 0, 0, 0, 0, 0, 0, 46, 0, 0, 0, 46, 0, 0, 0, 46, 0,
      0, 0, 46, 0, 0, 0, 46, 0, 0, 0, 46, 0, 0, 0, 46, 0, 0, 0, 46, 0, 0, 0, 46, 0, 0, 0,
      46, 0, 0, 0, 46, 0, 0, 0, 46, 0, 0, 0, 46, 0, 0, 0, 46, 0, 0, 0, 46, 0, 0, 0, 46, 0,
      0, 0, 46, 0, 0, 0, 46, 0, 0, 0, 46, 0, 0, 0, 46, 0, 0, 0, 46, 0, 0, 0, 46, 0, 0, 0,
      46, 0, 0, 0, 46, 0, 0, 0, 46, 0, 0, 0, 170, 170, 170, 170, 170, 170, 170, 170, 170,
      170, 170, 170, 170, 170, 170, 170, 170, 170, 170, 170, 0, 0, 0, 170, 170, 170, 170,
      170, 170, 170, 170, 170, 170, 170, 170, 170, 170, 170, 170, 170, 170, 170, 170, 1, 0,
      0, 6, 0, 0, 0, 0, 0, 0, 0, 0, 0, 255, 255, 255, 255, 255, 255, 0, 0, 255, 255, 18, 0,
      0, 0, 0, 0, 0, 0, 0, 0, 255, 255, 255, 255, 255, 255, 0, 0, 255, 255, 0, 0, 0, 0, 0,
      11, 0, 0, 0, 1, 0, 0, 1, 0, 11, 1, 0, 0, 0, 0, 0, 0, 12, 0, 0, 0, 97, 46, 114, 111,
      109, 0, 97, 108, 112, 104, 97, 0, 98, 46, 114, 111, 109, 0, 98, 101, 116, 97, 0]"

lemma fold_update_set:
  "set (fold (\<lambda>r d. AList.update (k r) (v r) d) rows d0) \<subseteq> set d0 \<union> (\<lambda>r. (k r, v r)) ` set rows"
proof (induction rows arbitrary: d0)
  case Nil then show ?case by simp
next
  case (Cons r rows)
  have "set (AList.update (k r) (v r) d0) \<subseteq> insert (k r, v r) (set d0)"
    by (induction d0) auto
  with Cons.IH [of "AList.update (k r) (v r) d0"] show ?case by auto
qed

lemma dict_of_rows_set: "set (dict_of_rows k v rows) \<subseteq> (\<lambda>r. (k r, v r)) ` set rows"
  using fold_update_set [of k v rows "[]"] by (simp add: dict_of_rows_def)

lemma fold_update_distinct:
  "distinct (map fst d0) \<Longrightarrow> distinct (map fst (fold (\<lambda>r d. AList.update (k r) (v r) d) rows d0))"
  by (induction rows arbitrary: d0) (simp_all add: distinct_update)

lemma dict_of_rows_distinct: "distinct (map fst (dict_of_rows k v rows))"
  by (simp add: dict_of_rows_def fold_update_distinct)

lemma fold_update_fresh:
  "distinct (map k rows) \<Longrightarrow> k ` set rows \<inter> fst ` set d0 = {} \<Longrightarrow>
   fold (\<lambda>r d. AList.update (k r) (v r) d) rows d0 = d0 @ map (\<lambda>r. (k r, v r)) rows"
proof (induction rows arbitrary: d0)
  case Nil then show ?case by simp
next
  case (Cons r rows)
  have "k r \<notin> fst ` set d0" using Cons.prems by auto
  then have u: "AList.update (k r) (v r) d0 = d0 @ [(k r, v r)]"
    by (induction d0) auto
  have "k ` set rows \<inter> fst ` set (d0 @ [(k r, v r)]) = {}"
    using Cons.prems by auto
  with Cons.IH [of "d0 @ [(k r, v r)]"] Cons.prems u show ?case by simp
qed

lemma dict_of_rows_distinct_keys:
  "distinct (map k rows) \<Longrightarrow> dict_of_rows k v rows = map (\<lambda>r. (k r, v r)) rows"
  using fold_update_fresh [of k rows "[]" v] by (simp add: dict_of_rows_def)

lemma remap_machines_snd:
  "snd (remap_machines mwr ms n idm acc) =
     acc @ map (\<lambda>(old_id, m). (m, old_id)) (filter (\<lambda>(old_id, m). old_id \<in> mwr) ms)"
  by (induction ms arbitrary: n idm acc) (auto split: prod.splits)

lemma remap_machines_fst_notin:
  "k \<notin> fst ` set ms \<Longrightarrow> fst (remap_machines mwr ms n idm acc) k = idm k"
  by (induction ms arbitrary: n idm acc) (auto split: prod.splits)

lemma remap_machines_fst_nth:
  "distinct (map fst ms) \<Longrightarrow> i < length (filter (\<lambda>(old_id, m). old_id \<in> mwr) ms) \<Longrightarrow>
   fst (remap_machines mwr ms n idm acc) (fst (filter (\<lambda>(old_id, m). old_id \<in> mwr) ms ! i)) =
     Some (int n + int i)"
proof (induction ms arbitrary: n idm acc i)
  case Nil
  then show ?case by simp
next
  case (Cons p rest)
  obtain old_id m where p: "p = (old_id, m)" by (cases p)
  let ?F = "filter (\<lambda>(old_id, m). old_id \<in> mwr)"
  have d: "distinct (map fst rest)" using Cons.prems by simp
  show ?case
  proof (cases "old_id \<in> mwr")
    case True
    show ?thesis
    proof (cases i)
      case 0
      have "old_id \<notin> fst ` set rest" using Cons.prems p by auto
      then show ?thesis using True 0 p by (simp add: remap_machines_fst_notin)
    next
      case (Suc j)
      have j: "j < length (?F rest)"
        using Cons.prems Suc True p by simp
      have "fst (remap_machines mwr rest (Suc n) (idm(old_id \<mapsto> int n)) (acc @ [(m, old_id)]))
              (fst (?F rest ! j)) = Some (int (Suc n) + int j)"
        by (rule Cons.IH [OF d j])
      moreover have "remap_machines mwr (p # rest) n idm acc =
           remap_machines mwr rest (Suc n) (idm(old_id \<mapsto> int n)) (acc @ [(m, old_id)])"
        using True p by simp
      moreover have "?F (p # rest) ! i = ?F rest ! j"
        using True p Suc by simp
      ultimately show ?thesis by (simp only: Suc) simp
    qed
  next
    case False
    have i: "i < length (?F rest)" using Cons.prems False p by simp
    have "fst (remap_machines mwr rest n idm acc) (fst (?F rest ! i)) = Some (int n + int i)"
      by (rule Cons.IH [OF d i])
    then show ?thesis using False p by simp
  qed
qed

lemma remap_machines_fst_dom:
  "fst (remap_machines mwr ms n idm acc) k = Some v \<Longrightarrow>
   idm k = Some v \<or> (k \<in> mwr \<and> k \<in> fst ` set ms \<and> int n \<le> v \<and>
     v < int n + int (length (filter (\<lambda>(old_id, m). old_id \<in> mwr) ms)))"
proof (induction ms arbitrary: n idm acc)
  case Nil
  then show ?case by simp
next
  case (Cons p rest)
  obtain old_id m where p: "p = (old_id, m)" by (cases p)
  let ?F = "filter (\<lambda>(old_id, m). old_id \<in> mwr)"
  show ?case
  proof (cases "old_id \<in> mwr")
    case True
    have "fst (remap_machines mwr rest (Suc n) (idm(old_id \<mapsto> int n)) (acc @ [(m, old_id)])) k = Some v"
      using Cons.prems True p by simp
    from Cons.IH [OF this]
    consider "(idm(old_id \<mapsto> int n)) k = Some v"
      | "k \<in> mwr" "k \<in> fst ` set rest" "int (Suc n) \<le> v" "v < int (Suc n) + int (length (?F rest))"
      by blast
    then show ?thesis
    proof cases
      case 1
      show ?thesis
      proof (cases "k = old_id")
        case True
        with 1 have "v = int n" by simp
        with True \<open>old_id \<in> mwr\<close> p show ?thesis by simp
      next
        case False
        with 1 show ?thesis by simp
      qed
    next
      case 2
      then show ?thesis using True p by simp
    qed
  next
    case False
    have "fst (remap_machines mwr rest n idm acc) k = Some v"
      using Cons.prems False p by simp
    from Cons.IH [OF this] show ?thesis using False p by auto
  qed
qed

subsection \<open>Packing\<close>

lemma length_le_bytes: "length (le_bytes n v) = n"
  by (induction n arbitrary: v) simp_all

lemma pack_uint_length: "pack_uint n v = Inr bs \<Longrightarrow> length bs = n"
  by (auto simp: pack_uint_def length_le_bytes split: if_splits)

lemma pack_I_length: "pack_I v = Inr bs \<Longrightarrow> length bs = 4"
  by (simp add: pack_I_def pack_uint_length)

lemma pack_H_length: "pack_H v = Inr bs \<Longrightarrow> length bs = 2"
  by (simp add: pack_H_def pack_uint_length)

lemma pack_H_zero: "pack_H 0 = Inr [0, 0]"
  by (simp add: pack_H_def pack_uint_def numeral_2_eq_2)

lemma write_uint24_length: "write_uint24 v = Inr bs \<Longrightarrow> length bs = 3"
  by (auto simp: write_uint24_def dest: pack_I_length split: sum.splits)

lemma econcat_Nil: "econcat [] = Inr []"
  by (simp add: econcat_def)

lemma econcat_Cons:
  "econcat (p # ps) =
     (case p of Inl e \<Rightarrow> Inl e
      | Inr b \<Rightarrow> (case econcat ps of Inl e \<Rightarrow> Inl e | Inr bs \<Rightarrow> Inr (b @ bs)))"
  by (simp add: econcat_def split: sum.splits)

lemma machine_entry_year:
  assumes "machine_entry string_offsets desc_info (new_id, m) = Inr bs" and "rm_year m = 0"
  shows "length bs = 20 \<and> take 2 (drop 16 bs) = [0, 0]"
proof -
  obtain d_off d_len where d: "list_get desc_info new_id (0, 0) = (d_off, d_len)"
    by (cases "list_get desc_info new_id (0, 0)")
  from assms d obtain b1 b2 b3 b4 b5 b7 where
    p: "pack_I (int (map_get string_offsets (rm_name m) 0)) = Inr b1"
       "pack_I (int d_off) = Inr b2" "pack_H (int d_len) = Inr b3"
       "write_uint24 (rm_cloneof_id m) = Inr b4" "write_uint24 (rm_romof_id m) = Inr b5"
       "pack_H (rm_manufacturer_id m AND 0xFFFF) = Inr b7"
    and bs: "bs = b1 @ b2 @ b3 @ b4 @ b5 @ [0, 0] @ b7"
    by (auto simp: machine_entry_def Let_def econcat_Cons econcat_Nil pack_H_zero
             split: sum.splits)
  from p have "length b1 = 4" "length b2 = 4" "length b3 = 2" "length b4 = 3" "length b5 = 3"
    "length b7 = 2"
    by (auto dest: pack_I_length pack_H_length write_uint24_length)
  then show ?thesis by (simp add: bs)
qed

subsection \<open>Sorting and maps\<close>

lemma insort_key_map:
  "insort_key k (f x) (map f ys) = map f (insort_key (\<lambda>a. k (f a)) x ys)"
  by (induction ys) simp_all

lemma sort_key_map: "sort_key k (map f xs) = map f (sort_key (\<lambda>a. k (f a)) xs)"
  by (induction xs) (simp_all add: insort_key_map)

lemma dict_of_rows_map:
  "dict_of_rows k v (map f rows) = dict_of_rows (\<lambda>a. k (f a)) (\<lambda>a. v (f a)) rows"
  by (simp add: dict_of_rows_def fold_map comp_def)

subsection \<open>What \<open>remap_ids\<close> returns\<close>

lemma remap_ids_machines:
  assumes "remap_ids data mn mx = Inr rd"
  shows "map (\<lambda>m. (rm_old_id m, rm_name m, rm_year m, rm_description m)) (rd_machines rd) =
         map (\<lambda>(old_id, m). (old_id, lm_name m, lm_year m, lm_description m))
           (filter (\<lambda>(old_id, m). old_id \<in> lmr_machine_id ` set (ld_machine_roms data))
              (sort_key fst (ld_machines data)))"
proof -
  let ?mwr = "set (map lmr_machine_id (ld_machine_roms data))"
  obtain idm nm where r: "remap_machines ?mwr (sort_key fst (ld_machines data)) 0 Map.empty [] = (idm, nm)"
    by (cases "remap_machines ?mwr (sort_key fst (ld_machines data)) 0 Map.empty []")
  have nm: "nm = map (\<lambda>(old_id, m). (m, old_id))
                   (filter (\<lambda>(old_id, m). old_id \<in> ?mwr) (sort_key fst (ld_machines data)))"
    using remap_machines_snd [of ?mwr "sort_key fst (ld_machines data)" 0 Map.empty "[]"] r
    by simp
  from assms r have "map (\<lambda>m. (rm_old_id m, rm_name m, rm_year m, rm_description m)) (rd_machines rd)
      = map (\<lambda>(m, old_id). (old_id, lm_name m, lm_year m, lm_description m)) nm"
    by (auto simp: remap_ids_def Let_def split: sum.splits prod.splits)
  then show ?thesis by (simp add: nm comp_def case_prod_unfold)
qed

lemma load_database_machines:
  "ld_machines (load_database db mn mx) = dict_of_rows m_id load_machine (sort_key m_id (machines db))"
  by (simp add: load_database_def Let_def)

lemma rd_machines_source:
  assumes "remap_ids (load_database db mn mx) mn mx = Inr rd" and "m \<in> set (rd_machines rd)"
  shows "\<exists>r \<in> set (machines db). m_id r = rm_old_id m \<and> rm_name m = m_name r \<and>
           rm_year m = lm_year (load_machine r) \<and> rm_description m = m_description r"
proof -
  let ?L = "filter (\<lambda>(old_id, m). old_id \<in> lmr_machine_id ` set (ld_machine_roms (load_database db mn mx)))
              (sort_key fst (ld_machines (load_database db mn mx)))"
  from assms(2) have "(rm_old_id m, rm_name m, rm_year m, rm_description m)
      \<in> set (map (\<lambda>m. (rm_old_id m, rm_name m, rm_year m, rm_description m)) (rd_machines rd))"
    by force
  then have "(rm_old_id m, rm_name m, rm_year m, rm_description m)
      \<in> set (map (\<lambda>(old_id, m). (old_id, lm_name m, lm_year m, lm_description m)) ?L)"
    by (simp only: remap_ids_machines [OF assms(1)])
  then obtain old_id lm where
    in_L: "(old_id, lm) \<in> set (ld_machines (load_database db mn mx))"
    and eq: "rm_old_id m = old_id" "rm_name m = lm_name lm" "rm_year m = lm_year lm"
            "rm_description m = lm_description lm"
    by auto
  from in_L dict_of_rows_set [of m_id load_machine "sort_key m_id (machines db)"]
  obtain r where "r \<in> set (machines db)" "old_id = m_id r" "lm = load_machine r"
    by (auto simp: load_database_machines)
  with eq show ?thesis by (auto simp: load_machine_def)
qed

lemma load_database_null_years:
  "load_database (null_years_as_zero db) mn mx = load_database db mn mx"
proof -
  let ?f = "\<lambda>r. case m_year r of None \<Rightarrow> r\<lparr> m_year := Some 0 \<rparr> | Some y \<Rightarrow> r"
  have id: "\<And>r. m_id (?f r) = m_id r" by (simp split: option.splits)
  have lm: "\<And>r. load_machine (?f r) = load_machine r"
    by (simp add: load_machine_def split: option.splits)
  have "dict_of_rows m_id load_machine (sort_key m_id (map ?f (machines db))) =
        dict_of_rows m_id load_machine (sort_key m_id (machines db))"
    by (simp only: sort_key_map dict_of_rows_map id lm)
  then show ?thesis
    by (simp add: load_database_def null_years_as_zero_def)
qed

subsection \<open>The ids of the ROMs\<close>

lemma make_rom_id_Inl: "(make_rom_id s idx = Inl e) = (idx > 65535 \<and> e = ValueError)"
  by (auto simp: make_rom_id_def)

lemma make_rom_id_Inr: "(make_rom_id s idx = Inr v) = (idx \<le> 65535 \<and> v = (push_bit 16 s OR int idx))"
  by (auto simp: make_rom_id_def)

lemma remap_class_Inl:
  "(remap_class s cls idx st = Inl e) = (cls \<noteq> [] \<and> idx + length cls > 65536 \<and> e = ValueError)"
proof (induction cls arbitrary: idx st)
  case Nil
  then show ?case by simp
next
  case (Cons p rest)
  obtain k r where p: "p = (k, r)" by (cases p)
  show ?case
  proof (cases "idx > 65535")
    case True
    then have "make_rom_id s idx = Inl ValueError" by (simp add: make_rom_id_def)
    with True show ?thesis by (auto simp: p)
  next
    case False
    then have m: "make_rom_id s idx = Inr (push_bit 16 s OR int idx)"
      by (simp add: make_rom_id_def)
    show ?thesis using False by (auto simp: p m Cons.IH)
  qed
qed

lemma remap_class_frame:
  "remap_class s cls idx st = Inr st' \<Longrightarrow>
     rs_size_index st' = rs_size_index st \<and>
     rs_global_index st' = rs_global_index st + length cls"
proof (induction cls arbitrary: idx st)
  case Nil
  then show ?case by simp
next
  case (Cons p rest)
  obtain k r where p: "p = (k, r)" by (cases p)
  from Cons.prems obtain v where v: "make_rom_id s idx = Inr v"
    and rest: "remap_class s rest (Suc idx)
                 (st\<lparr> rs_rom_id_map := (rs_rom_id_map st)(lr_old_id r \<mapsto> v),
                      rs_new_ids := (rs_new_ids st)(k \<mapsto> v),
                      rs_global_index := rs_global_index st + 1 \<rparr>) = Inr st'"
    by (auto simp: p split: sum.splits)
  from Cons.IH [OF rest] show ?case by simp
qed

lemma remap_class_new_ids_other:
  "remap_class s cls idx st = Inr st' \<Longrightarrow> k \<notin> fst ` set cls \<Longrightarrow>
     rs_new_ids st' k = rs_new_ids st k"
proof (induction cls arbitrary: idx st)
  case Nil
  then show ?case by simp
next
  case (Cons p rest)
  obtain j r where p: "p = (j, r)" by (cases p)
  from Cons.prems obtain v where v: "make_rom_id s idx = Inr v"
    and rest: "remap_class s rest (Suc idx)
                 (st\<lparr> rs_rom_id_map := (rs_rom_id_map st)(lr_old_id r \<mapsto> v),
                      rs_new_ids := (rs_new_ids st)(j \<mapsto> v),
                      rs_global_index := rs_global_index st + 1 \<rparr>) = Inr st'"
    by (auto simp: p split: sum.splits)
  from Cons.prems have "k \<notin> fst ` set rest" "k \<noteq> j" by (auto simp: p)
  with Cons.IH [OF rest] show ?case by simp
qed

lemma remap_class_new_ids_nth:
  "remap_class s cls idx st = Inr st' \<Longrightarrow> distinct (map fst cls) \<Longrightarrow> i < length cls \<Longrightarrow>
     rs_new_ids st' (fst (cls ! i)) = Some (push_bit 16 s OR int (idx + i))"
proof (induction cls arbitrary: idx st i)
  case Nil
  then show ?case by simp
next
  case (Cons p rest)
  obtain j r where p: "p = (j, r)" by (cases p)
  from Cons.prems(1) obtain v where v: "make_rom_id s idx = Inr v"
    and rest: "remap_class s rest (Suc idx)
                 (st\<lparr> rs_rom_id_map := (rs_rom_id_map st)(lr_old_id r \<mapsto> v),
                      rs_new_ids := (rs_new_ids st)(j \<mapsto> v),
                      rs_global_index := rs_global_index st + 1 \<rparr>) = Inr st'"
    by (auto simp: p split: sum.splits)
  from v have vv: "v = (push_bit 16 s OR int idx)" by (simp add: make_rom_id_Inr)
  from Cons.prems(2) have d: "distinct (map fst rest)" "j \<notin> fst ` set rest" by (auto simp: p)
  show ?case
  proof (cases i)
    case 0
    from remap_class_new_ids_other [OF rest d(2)] show ?thesis by (simp add: 0 p vv)
  next
    case (Suc i')
    with Cons.prems(3) have "i' < length rest" by simp
    from Cons.IH [OF rest d(1) this] show ?thesis by (simp add: Suc)
  qed
qed

lemma remap_class_id_map_other:
  "remap_class s cls idx st = Inr st' \<Longrightarrow> k \<notin> (\<lambda>(j, r). lr_old_id r) ` set cls \<Longrightarrow>
     rs_rom_id_map st' k = rs_rom_id_map st k"
proof (induction cls arbitrary: idx st)
  case Nil
  then show ?case by simp
next
  case (Cons p rest)
  obtain j r where p: "p = (j, r)" by (cases p)
  from Cons.prems obtain v where v: "make_rom_id s idx = Inr v"
    and rest: "remap_class s rest (Suc idx)
                 (st\<lparr> rs_rom_id_map := (rs_rom_id_map st)(lr_old_id r \<mapsto> v),
                      rs_new_ids := (rs_new_ids st)(j \<mapsto> v),
                      rs_global_index := rs_global_index st + 1 \<rparr>) = Inr st'"
    by (auto simp: p split: sum.splits)
  from Cons.prems have "k \<notin> (\<lambda>(j, r). lr_old_id r) ` set rest" "k \<noteq> lr_old_id r"
    by (auto simp: p)
  with Cons.IH [OF rest] show ?case by simp
qed

lemma remap_class_id_map_nth:
  "remap_class s cls idx st = Inr st' \<Longrightarrow> distinct (map (\<lambda>(j, r). lr_old_id r) cls) \<Longrightarrow>
   i < length cls \<Longrightarrow>
     rs_rom_id_map st' (lr_old_id (snd (cls ! i))) = Some (push_bit 16 s OR int (idx + i))"
proof (induction cls arbitrary: idx st i)
  case Nil
  then show ?case by simp
next
  case (Cons p rest)
  obtain j r where p: "p = (j, r)" by (cases p)
  from Cons.prems(1) obtain v where v: "make_rom_id s idx = Inr v"
    and rest: "remap_class s rest (Suc idx)
                 (st\<lparr> rs_rom_id_map := (rs_rom_id_map st)(lr_old_id r \<mapsto> v),
                      rs_new_ids := (rs_new_ids st)(j \<mapsto> v),
                      rs_global_index := rs_global_index st + 1 \<rparr>) = Inr st'"
    by (auto simp: p split: sum.splits)
  from v have vv: "v = (push_bit 16 s OR int idx)" by (simp add: make_rom_id_Inr)
  from Cons.prems(2) have d: "distinct (map (\<lambda>(j, r). lr_old_id r) rest)"
    "lr_old_id r \<notin> (\<lambda>(j, r). lr_old_id r) ` set rest" by (auto simp: p)
  show ?case
  proof (cases i)
    case 0
    from remap_class_id_map_other [OF rest d(2)] show ?thesis by (simp add: 0 p vv)
  next
    case (Suc i')
    with Cons.prems(3) have "i' < length rest" by simp
    from Cons.IH [OF rest d(1) this] show ?thesis by (simp add: Suc)
  qed
qed

lemma remap_sizes_Inl:
  "(remap_sizes objs sizes st = Inl e) =
     ((\<exists>s \<in> set sizes. length (roms_by_size objs s) > 65536) \<and> e = ValueError)"
proof (induction sizes arbitrary: st)
  case Nil
  then show ?case by simp
next
  case (Cons s sizes)
  let ?st1 = "st\<lparr> rs_size_index :=
                (rs_size_index st)(s \<mapsto> (rs_global_index st, length (roms_by_size objs s))) \<rparr>"
  show ?case
  proof (cases "remap_class s (roms_by_size objs s) 0 ?st1")
    case (Inl e')
    then have "roms_by_size objs s \<noteq> []" "length (roms_by_size objs s) > 65536" "e' = ValueError"
      by (simp_all add: remap_class_Inl)
    with Inl show ?thesis by (auto simp: Let_def)
  next
    case (Inr st2)
    have "\<not> length (roms_by_size objs s) > 65536"
    proof
      assume a: "length (roms_by_size objs s) > 65536"
      then have "roms_by_size objs s \<noteq> []" by auto
      with a have "remap_class s (roms_by_size objs s) 0 ?st1 = Inl ValueError"
        by (simp add: remap_class_Inl)
      with Inr show False by simp
    qed
    with Inr Cons.IH [of st2] show ?thesis by (auto simp: Let_def)
  qed
qed

lemma roms_by_size_fst:
  assumes "distinct (map fst objs)" "(k, r) \<in> set objs" "lr_size_pow2 r \<noteq> s"
  shows "k \<notin> fst ` set (roms_by_size objs s)"
proof
  assume "k \<in> fst ` set (roms_by_size objs s)"
  then obtain r' where r': "(k, r') \<in> set objs" "lr_size_pow2 r' = s"
    by (auto simp: roms_by_size_def)
  from assms(1) assms(2) r'(1) have "r' = r" by (rule eq_key_imp_eq_value [symmetric])
  with r'(2) assms(3) show False by simp
qed

lemma remap_sizes_new_ids_other:
  "remap_sizes objs sizes st = Inr st' \<Longrightarrow> distinct (map fst objs) \<Longrightarrow> (k, r) \<in> set objs \<Longrightarrow>
   lr_size_pow2 r \<notin> set sizes \<Longrightarrow> rs_new_ids st' k = rs_new_ids st k"
proof (induction sizes arbitrary: st)
  case Nil
  then show ?case by simp
next
  case (Cons s sizes)
  let ?st1 = "st\<lparr> rs_size_index :=
                (rs_size_index st)(s \<mapsto> (rs_global_index st, length (roms_by_size objs s))) \<rparr>"
  from Cons.prems(1) obtain st2 where
    c: "remap_class s (roms_by_size objs s) 0 ?st1 = Inr st2" and
    r: "remap_sizes objs sizes st2 = Inr st'"
    by (auto simp: Let_def split: sum.splits)
  from Cons.prems have ne: "lr_size_pow2 r \<noteq> s" "lr_size_pow2 r \<notin> set sizes" by auto
  from roms_by_size_fst [OF Cons.prems(2,3) ne(1)] remap_class_new_ids_other [OF c]
  have "rs_new_ids st2 k = rs_new_ids st k" by simp
  with Cons.IH [OF r Cons.prems(2,3) ne(2)] show ?case by simp
qed

lemma remap_sizes_new_ids:
  "remap_sizes objs sizes st = Inr st' \<Longrightarrow> distinct (map fst objs) \<Longrightarrow> distinct sizes \<Longrightarrow>
   s \<in> set sizes \<Longrightarrow> i < length (roms_by_size objs s) \<Longrightarrow>
   rs_new_ids st' (fst (roms_by_size objs s ! i)) = Some (push_bit 16 s OR int i)"
proof (induction sizes arbitrary: st)
  case Nil
  then show ?case by simp
next
  case (Cons s0 sizes)
  let ?st1 = "st\<lparr> rs_size_index :=
                (rs_size_index st)(s0 \<mapsto> (rs_global_index st, length (roms_by_size objs s0))) \<rparr>"
  from Cons.prems(1) obtain st2 where
    c: "remap_class s0 (roms_by_size objs s0) 0 ?st1 = Inr st2" and
    r: "remap_sizes objs sizes st2 = Inr st'"
    by (auto simp: Let_def split: sum.splits)
  let ?p = "roms_by_size objs s ! i"
  have pin: "?p \<in> set (roms_by_size objs s)" using Cons.prems(5) by simp
  then have pobj: "(fst ?p, snd ?p) \<in> set objs" and psz: "lr_size_pow2 (snd ?p) = s"
    by (auto simp: roms_by_size_def)
  have dcls: "\<And>t. distinct (map fst (roms_by_size objs t))"
    using Cons.prems(2) by (simp add: roms_by_size_def distinct_map_filter)
  show ?case
  proof (cases "s = s0")
    case True
    with Cons.prems(3) have "lr_size_pow2 (snd ?p) \<notin> set sizes" using psz by simp
    from remap_sizes_new_ids_other [OF r Cons.prems(2) pobj this]
    have "rs_new_ids st' (fst ?p) = rs_new_ids st2 (fst ?p)" .
    also have "\<dots> = Some (push_bit 16 s OR int (0 + i))"
      using remap_class_new_ids_nth [OF c dcls] Cons.prems(5) True by simp
    finally show ?thesis by simp
  next
    case False
    with Cons.prems(4) have "s \<in> set sizes" by simp
    from Cons.IH [OF r Cons.prems(2) _ this Cons.prems(5)] Cons.prems(3)
    show ?thesis by simp
  qed
qed

lemma length_filter_enumerate:
  "length (filter (\<lambda>(i, x). P x) (List.enumerate n xs)) = length (filter P xs)"
  by (induction xs arbitrary: n) auto

lemma filter_enumerate_nth:
  assumes "k < length xs" "P (xs ! k)"
  shows "filter (\<lambda>(i, x). P x) (List.enumerate n xs) ! length (filter P (take k xs)) = (n + k, xs ! k)"
proof -
  have xs: "xs = take k xs @ xs ! k # drop (Suc k) xs"
    using assms(1) by (simp add: id_take_nth_drop)
  have len: "length (take k xs) = k" using assms(1) by simp
  have "List.enumerate n xs =
          List.enumerate n (take k xs) @ (n + k, xs ! k) # List.enumerate (Suc (n + k)) (drop (Suc k) xs)"
    by (subst xs) (simp only: enumerate_append_eq enumerate_simps len)
  then have "filter (\<lambda>(i, x). P x) (List.enumerate n xs) =
        filter (\<lambda>(i, x). P x) (List.enumerate n (take k xs)) @
        (n + k, xs ! k) # filter (\<lambda>(i, x). P x) (List.enumerate (Suc (n + k)) (drop (Suc k) xs))"
    using assms(2) by simp
  then show ?thesis
    by (simp add: nth_append length_filter_enumerate)
qed

lemma class_index_lt:
  assumes "k < length xs" "P (xs ! k)"
  shows "length (filter P (take k xs)) < length (filter P xs)"
proof -
  have xs: "xs = take k xs @ xs ! k # drop (Suc k) xs"
    using assms(1) by (simp add: id_take_nth_drop)
  have "length (filter P xs) =
          length (filter P (take k xs)) + length (filter P (xs ! k # drop (Suc k) xs))"
    by (subst xs) (simp only: filter_append length_append)
  with assms(2) show ?thesis by simp
qed

lemma filter_nth_position:
  "i < length (filter P xs) \<Longrightarrow> \<exists>k < length xs. P (xs ! k) \<and> length (filter P (take k xs)) = i"
proof (induction xs arbitrary: i rule: rev_induct)
  case Nil
  then show ?case by simp
next
  case (snoc x xs)
  show ?case
  proof (cases "i < length (filter P xs)")
    case True
    from snoc.IH [OF True] obtain k where "k < length xs" "P (xs ! k)" "length (filter P (take k xs)) = i"
      by blast
    then show ?thesis by (intro exI [of _ k]) (simp add: nth_append)
  next
    case False
    with snoc.prems have "P x" "i = length (filter P xs)" by (auto split: if_splits)
    then show ?thesis by (intro exI [of _ "length xs"]) simp
  qed
qed

lemma remap_rom_ids_Inl:
  "(remap_rom_ids roms0 mn mx = Inl e) =
     ((\<exists>s \<in> {mn..mx}. length (filter (\<lambda>r. lr_size_pow2 r = s) roms0) > 65536) \<and> e = ValueError)"
  by (simp add: remap_rom_ids_def remap_sizes_Inl roms_by_size_def length_filter_enumerate)

lemma remap_rom_ids_new_id:
  assumes "remap_rom_ids roms0 mn mx = Inr st" "k < length roms0"
    "mn \<le> lr_size_pow2 (roms0 ! k)" "lr_size_pow2 (roms0 ! k) \<le> mx"
  shows "rs_new_ids st k =
     Some (push_bit 16 (lr_size_pow2 (roms0 ! k)) OR int (class_index (map lr_size_pow2 roms0) k))"
proof -
  let ?s = "lr_size_pow2 (roms0 ! k)"
  let ?P = "\<lambda>r. lr_size_pow2 r = ?s"
  let ?i = "length (filter ?P (take k roms0))"
  let ?objs = "List.enumerate 0 roms0"
  have ci: "class_index (map lr_size_pow2 roms0) k = ?i"
    using assms(2) by (simp add: class_index_def take_map filter_map comp_def)
  have nth: "roms_by_size ?objs ?s ! ?i = (k, roms0 ! k)"
    using filter_enumerate_nth [of k roms0 ?P 0] assms(2) by (simp add: roms_by_size_def)
  have lt: "?i < length (roms_by_size ?objs ?s)"
    using class_index_lt [of k roms0 ?P] assms(2)
    by (simp add: roms_by_size_def length_filter_enumerate)
  have "rs_new_ids st (fst (roms_by_size ?objs ?s ! ?i)) = Some (push_bit 16 ?s OR int ?i)"
    by (rule remap_sizes_new_ids [OF assms(1) [unfolded remap_rom_ids_def] _ _ _ lt])
       (use assms(3,4) in simp_all)
  then show ?thesis by (simp add: nth ci)
qed

lemma remap_ids_Inl:
  "(remap_ids data mn mx = Inl e) = (remap_rom_ids (ld_roms data) mn mx = Inl e)"
  by (auto simp: remap_ids_def Let_def split: sum.splits prod.splits)

lemma remap_ids_roms:
  assumes "remap_ids data mn mx = Inr rd"
  shows "\<exists>st. remap_rom_ids (ld_roms data) mn mx = Inr st \<and>
           rd_rom_id_map rd = rs_rom_id_map st \<and> rd_size_index rd = rs_size_index st \<and>
           length (rd_roms rd) = length (ld_roms data) \<and>
           (\<forall>k < length (ld_roms data).
              rr_old_id (rd_roms rd ! k) = lr_old_id (ld_roms data ! k) \<and>
              rr_sha1 (rd_roms rd ! k) = lr_sha1 (ld_roms data ! k) \<and>
              rr_size_pow2 (rd_roms rd ! k) = lr_size_pow2 (ld_roms data ! k) \<and>
              rr_new_id (rd_roms rd ! k) = rs_new_ids st k)"
proof -
  from assms obtain st where st: "remap_rom_ids (ld_roms data) mn mx = Inr st"
    by (auto simp: remap_ids_def split: sum.splits)
  from assms st have
    "rd_rom_id_map rd = rs_rom_id_map st" "rd_size_index rd = rs_size_index st"
    by (auto simp: remap_ids_def Let_def split: prod.splits)
  moreover from assms st have "\<exists>f. rd_roms rd =
      map (\<lambda>(k, rom). \<lparr> rr_old_id = lr_old_id rom, rr_sha1 = lr_sha1 rom,
                    rr_size_pow2 = lr_size_pow2 rom, rr_name_id = f rom,
                    rr_new_id = rs_new_ids st k \<rparr>) (List.enumerate 0 (ld_roms data))"
    by (auto simp: remap_ids_def Let_def split: prod.splits)
  then obtain f where "rd_roms rd =
      map (\<lambda>(k, rom). \<lparr> rr_old_id = lr_old_id rom, rr_sha1 = lr_sha1 rom,
                    rr_size_pow2 = lr_size_pow2 rom, rr_name_id = f rom,
                    rr_new_id = rs_new_ids st k \<rparr>) (List.enumerate 0 (ld_roms data))" ..
  then have "length (rd_roms rd) = length (ld_roms data) \<and>
           (\<forall>k < length (ld_roms data).
              rr_old_id (rd_roms rd ! k) = lr_old_id (ld_roms data ! k) \<and>
              rr_sha1 (rd_roms rd ! k) = lr_sha1 (ld_roms data ! k) \<and>
              rr_size_pow2 (rd_roms rd ! k) = lr_size_pow2 (ld_roms data ! k) \<and>
              rr_new_id (rd_roms rd ! k) = rs_new_ids st k)"
    by (simp add: nth_enumerate_eq)
  ultimately show ?thesis using st by blast
qed

lemma load_database_roms:
  "ld_roms (load_database db mn mx) =
     sort_key (\<lambda>r. (lr_size_pow2 r, lr_sha1 r)) (List.map_filter (select_rom mn mx) (roms db))"
  by (simp add: load_database_def Let_def)

lemma load_database_roms_band:
  assumes "r \<in> set (ld_roms (load_database db mn mx))"
  shows "mn \<le> lr_size_pow2 r \<and> lr_size_pow2 r \<le> mx \<and> length (lr_sha1 r) = 20"
proof -
  from assms obtain row where "select_rom mn mx row = Some r"
    by (auto simp: load_database_roms List.map_filter_def)
  then show ?thesis
    by (auto simp: select_rom_def split: option.splits if_splits)
qed

lemma rom_id_value:
  assumes "i < 65536"
  shows "push_bit 16 s OR int i = s * 65536 + int i"
proof -
  have i: "int i = take_bit 16 (int i)"
    using assms by (simp add: take_bit_int_eq_self)
  have "push_bit 16 s + take_bit 16 (int i) = push_bit 16 s OR take_bit 16 (int i)"
    by (rule disjunctive_add) (auto simp: bit_push_bit_iff bit_take_bit_iff)
  then show ?thesis using i by (simp add: push_bit_eq_mult)
qed

lemma rom_id_fields:
  assumes "i < 65536"
  shows "extract_rom_index (push_bit 16 s OR int i) = int i"
    and "0 \<le> s \<Longrightarrow> s \<le> 255 \<Longrightarrow> extract_size_pow2 (push_bit 16 s OR int i) = s"
    and "0 \<le> s \<Longrightarrow> s \<le> 255 \<Longrightarrow> 0 \<le> push_bit 16 s OR int i \<and> push_bit 16 s OR int i < 2 ^ 24"
proof -
  have v: "push_bit 16 s OR int i = s * 65536 + int i" by (rule rom_id_value [OF assms])
  have and16: "\<And>x::int. x AND 65535 = x mod 65536"
    using take_bit_eq_mask [of 16, where ?'a = int] by (simp add: take_bit_eq_mod mask_eq_exp_minus_1)
  have and8: "\<And>x::int. x AND 255 = x mod 256"
    using take_bit_eq_mask [of 8, where ?'a = int] by (simp add: take_bit_eq_mod mask_eq_exp_minus_1)
  show "extract_rom_index (push_bit 16 s OR int i) = int i"
    using assms by (simp add: extract_rom_index_def v and16)
  show "extract_size_pow2 (push_bit 16 s OR int i) = s" if "0 \<le> s" "s \<le> 255"
  proof -
    have "(s * 65536 + int i) div 65536 = s" using assms by simp
    then show ?thesis using that by (simp add: extract_size_pow2_def v and8 drop_bit_eq_div)
  qed
  show "0 \<le> push_bit 16 s OR int i \<and> push_bit 16 s OR int i < 2 ^ 24" if "0 \<le> s" "s \<le> 255"
    using assms that by (simp add: v)
qed

lemma class_overflow_iff:
  "(\<exists>k < length xs. class_index xs k > 65535) = (\<exists>s. length (filter (\<lambda>x. x = s) xs) > 65536)"
proof
  assume "\<exists>k < length xs. class_index xs k > 65535"
  then obtain k where k: "k < length xs" "length (filter (\<lambda>x. x = xs ! k) (take k xs)) > 65535"
    by (auto simp: class_index_def)
  from class_index_lt [of k xs "\<lambda>x. x = xs ! k"] k
  have "length (filter (\<lambda>x. x = xs ! k) xs) > 65536" by simp
  then show "\<exists>s. length (filter (\<lambda>x. x = s) xs) > 65536" by blast
next
  assume "\<exists>s. length (filter (\<lambda>x. x = s) xs) > 65536"
  then obtain s where "65536 < length (filter (\<lambda>x. x = s) xs)" by blast
  from filter_nth_position [OF this] obtain k where
    "k < length xs" "xs ! k = s" "length (filter (\<lambda>x. x = s) (take k xs)) = 65536" by blast
  then show "\<exists>k < length xs. class_index xs k > 65535"
    by (auto simp: class_index_def intro!: exI [of _ k])
qed

text \<open>
  Claim C4. The Remapper raises (and then \<open>main\<close> writes no blob) exactly when some ROM's
  0-based index within its \<open>size_pow2\<close> class exceeds \<open>0xFFFF\<close>, which is exactly when some
  class holds more than \<open>2^16\<close> ROMs; otherwise every ROM gets the id
  \<open>(size_pow2 << 16) | index\<close>, the index being its position within its class.
\<close>

theorem remapper_error_iff_class_overflow:
  "((\<exists>e. remap_ids (load_database db mn mx) mn mx = Inl e) =
      (\<exists>k < length (ld_roms (load_database db mn mx)).
         class_index (map lr_size_pow2 (ld_roms (load_database db mn mx))) k > 0xFFFF)) \<and>
   ((\<exists>e. remap_ids (load_database db mn mx) mn mx = Inl e) =
      (\<exists>s. length (filter (\<lambda>r. lr_size_pow2 r = s) (ld_roms (load_database db mn mx))) > 2 ^ 16)) \<and>
   (remap_ids (load_database db mn mx) mn mx = Inl e \<longrightarrow> generate hash_order db mn mx = Inl e) \<and>
   (remap_ids (load_database db mn mx) mn mx = Inr rd \<longrightarrow>
      (\<forall>k < length (rd_roms rd).
         class_index (map rr_size_pow2 (rd_roms rd)) k \<le> 0xFFFF \<and>
         rr_new_id (rd_roms rd ! k) =
           Some (push_bit 16 (rr_size_pow2 (rd_roms rd ! k)) OR
                 int (class_index (map rr_size_pow2 (rd_roms rd)) k))))"
proof -
  let ?data = "load_database db mn mx"
  let ?roms = "ld_roms ?data"
  have band: "\<And>r. r \<in> set ?roms \<Longrightarrow> mn \<le> lr_size_pow2 r \<and> lr_size_pow2 r \<le> mx"
    using load_database_roms_band by blast
  have cnt: "\<And>s. length (filter (\<lambda>x. x = s) (map lr_size_pow2 ?roms)) =
                  length (filter (\<lambda>r. lr_size_pow2 r = s) ?roms)"
    by (simp add: filter_map comp_def)
  have A: "(\<exists>e. remap_ids ?data mn mx = Inl e) =
           (\<exists>s. length (filter (\<lambda>r. lr_size_pow2 r = s) ?roms) > 2 ^ 16)"
  proof
    assume "\<exists>e. remap_ids ?data mn mx = Inl e"
    then show "\<exists>s. length (filter (\<lambda>r. lr_size_pow2 r = s) ?roms) > 2 ^ 16"
      by (auto simp: remap_ids_Inl remap_rom_ids_Inl)
  next
    assume "\<exists>s. length (filter (\<lambda>r. lr_size_pow2 r = s) ?roms) > 2 ^ 16"
    then obtain s where s: "length (filter (\<lambda>r. lr_size_pow2 r = s) ?roms) > 65536" by auto
    then have "filter (\<lambda>r. lr_size_pow2 r = s) ?roms \<noteq> []" by auto
    then obtain r where "r \<in> set ?roms" "lr_size_pow2 r = s"
      by (auto simp: filter_empty_conv)
    with band have "s \<in> {mn..mx}" by auto
    with s have "remap_ids ?data mn mx = Inl ValueError"
      by (auto simp: remap_ids_Inl remap_rom_ids_Inl)
    then show "\<exists>e. remap_ids ?data mn mx = Inl e" by blast
  qed
  have B: "(\<exists>k < length ?roms. class_index (map lr_size_pow2 ?roms) k > 0xFFFF) =
           (\<exists>s. length (filter (\<lambda>r. lr_size_pow2 r = s) ?roms) > 2 ^ 16)"
    using class_overflow_iff [of "map lr_size_pow2 ?roms", unfolded cnt length_map] by simp
  have C: "remap_ids ?data mn mx = Inl e \<longrightarrow> generate hash_order db mn mx = Inl e"
    by (simp add: generate_def)
  have D: "\<forall>k < length (rd_roms rd).
         class_index (map rr_size_pow2 (rd_roms rd)) k \<le> 0xFFFF \<and>
         rr_new_id (rd_roms rd ! k) =
           Some (push_bit 16 (rr_size_pow2 (rd_roms rd ! k)) OR
                 int (class_index (map rr_size_pow2 (rd_roms rd)) k))"
    if rd: "remap_ids ?data mn mx = Inr rd"
  proof (intro allI impI)
    fix k assume k: "k < length (rd_roms rd)"
    from remap_ids_roms [OF rd] obtain st where
      st: "remap_rom_ids ?roms mn mx = Inr st" and
      len: "length (rd_roms rd) = length ?roms" and
      flds: "\<forall>k < length ?roms.
              rr_size_pow2 (rd_roms rd ! k) = lr_size_pow2 (?roms ! k) \<and>
              rr_new_id (rd_roms rd ! k) = rs_new_ids st k"
      by blast
    have sizes: "map rr_size_pow2 (rd_roms rd) = map lr_size_pow2 ?roms"
      using len flds by (simp add: list_eq_iff_nth_eq)
    from k len have kr: "k < length ?roms" by simp
    then have "?roms ! k \<in> set ?roms" by simp
    from band [OF this] remap_rom_ids_new_id [OF st kr]
    have nid: "rs_new_ids st k =
       Some (push_bit 16 (lr_size_pow2 (?roms ! k)) OR int (class_index (map lr_size_pow2 ?roms) k))"
      by simp
    have "\<not> (\<exists>e. remap_ids ?data mn mx = Inl e)" using rd by simp
    with A B have "\<not> class_index (map lr_size_pow2 ?roms) k > 0xFFFF" using kr by blast
    with nid flds kr show "class_index (map rr_size_pow2 (rd_roms rd)) k \<le> 0xFFFF \<and>
         rr_new_id (rd_roms rd ! k) =
           Some (push_bit 16 (rr_size_pow2 (rd_roms rd ! k)) OR
                 int (class_index (map rr_size_pow2 (rd_roms rd)) k))"
      by (simp add: sizes)
  qed
  from A B C D show ?thesis by blast
qed

subsection \<open>The example catalogue\<close>

lemma example_ld_roms:
  "ld_roms (load_database example_db 11 23) =
     [\<lparr>lr_old_id = 2, lr_sha1 = example_sha1 3, lr_size_pow2 = 14, lr_name_id = Some 2\<rparr>,
      \<lparr>lr_old_id = 1, lr_sha1 = example_sha1 7, lr_size_pow2 = 14, lr_name_id = Some 1\<rparr>]"
  by (simp add: load_database_roms example_db_def select_rom_def List.map_filter_def
        example_sha1_def)

lemma example_remap_Inr: "\<exists>rd. remap_ids (load_database example_db 11 23) 11 23 = Inr rd"
proof (cases "remap_ids (load_database example_db 11 23) 11 23")
  case (Inl e)
  then obtain s where
    "length (filter (\<lambda>r. lr_size_pow2 r = s) (ld_roms (load_database example_db 11 23))) > 65536"
    by (auto simp: remap_ids_Inl remap_rom_ids_Inl)
  moreover have "length (filter (\<lambda>r. lr_size_pow2 r = s) (ld_roms (load_database example_db 11 23)))
      \<le> length (ld_roms (load_database example_db 11 23))"
    by (rule length_filter_le)
  ultimately show ?thesis by (simp add: example_ld_roms)
next
  case (Inr rd)
  then show ?thesis by blast
qed

theorem remapper_error_iff_class_overflow_witness:
  "\<exists>rd. remap_ids (load_database example_db 11 23) 11 23 = Inr rd \<and>
        map rr_new_id (rd_roms rd) = [Some 917504, Some 917505]"
proof -
  from example_remap_Inr obtain rd where rd: "remap_ids (load_database example_db 11 23) 11 23 = Inr rd"
    by blast
  from remap_ids_roms [OF rd] have len: "length (rd_roms rd) = 2"
    and sz: "rr_size_pow2 (rd_roms rd ! 0) = 14" "rr_size_pow2 (rd_roms rd ! 1) = 14"
    by (auto simp: example_ld_roms)
  then have sizes: "map rr_size_pow2 (rd_roms rd) = [14, 14]"
    by (simp add: list_eq_iff_nth_eq less_Suc_eq numeral_2_eq_2)
  from remapper_error_iff_class_overflow [of example_db 11 23 ValueError id rd] rd
  have "\<forall>k < length (rd_roms rd). rr_new_id (rd_roms rd ! k) =
           Some (push_bit 16 (rr_size_pow2 (rd_roms rd ! k)) OR
                 int (class_index (map rr_size_pow2 (rd_roms rd)) k))"
    by blast
  then have "rr_new_id (rd_roms rd ! 0) = Some 917504" "rr_new_id (rd_roms rd ! 1) = Some 917505"
    using len sz by (simp_all add: sizes class_index_def)
  then have "map rr_new_id (rd_roms rd) = [Some 917504, Some 917505]"
    using len by (simp add: list_eq_iff_nth_eq less_Suc_eq numeral_2_eq_2)
  then show ?thesis by (intro exI [of _ rd] conjI rd)
qed

lemma remap_ids_machines_refs:
  assumes "remap_ids data mn mx = Inr rd"
  shows "\<exists>machine_id_map manufacturer_id_map. rd_machines rd =
           map (\<lambda>(old_id, m).
                  \<lparr> rm_name = lm_name m,
                    rm_cloneof_id = remap_ref machine_id_map NULL_ID_24 (lm_cloneof_id m),
                    rm_romof_id = remap_ref machine_id_map NULL_ID_24 (lm_romof_id m),
                    rm_description = lm_description m,
                    rm_year = lm_year m,
                    rm_manufacturer_id =
                      remap_ref manufacturer_id_map NULL_ID_16 (lm_manufacturer_id m),
                    rm_old_id = old_id \<rparr>)
             (filter (\<lambda>(old_id, m). old_id \<in> lmr_machine_id ` set (ld_machine_roms data))
                (sort_key fst (ld_machines data)))"
proof -
  let ?mwr = "set (map lmr_machine_id (ld_machine_roms data))"
  obtain idm nm where r: "remap_machines ?mwr (sort_key fst (ld_machines data)) 0 Map.empty [] = (idm, nm)"
    by (cases "remap_machines ?mwr (sort_key fst (ld_machines data)) 0 Map.empty []")
  have nm: "nm = map (\<lambda>(old_id, m). (m, old_id))
                   (filter (\<lambda>(old_id, m). old_id \<in> ?mwr) (sort_key fst (ld_machines data)))"
    using remap_machines_snd [of ?mwr "sort_key fst (ld_machines data)" 0 Map.empty "[]"] r
    by simp
  from assms r have "\<exists>fdm. rd_machines rd =
      map (\<lambda>(m, old_id).
                  \<lparr> rm_name = lm_name m,
                    rm_cloneof_id = remap_ref idm NULL_ID_24 (lm_cloneof_id m),
                    rm_romof_id = remap_ref idm NULL_ID_24 (lm_romof_id m),
                    rm_description = lm_description m,
                    rm_year = lm_year m,
                    rm_manufacturer_id = remap_ref fdm NULL_ID_16 (lm_manufacturer_id m),
                    rm_old_id = old_id \<rparr>) nm"
    by (auto simp: remap_ids_def Let_def split: sum.splits prod.splits)
  then obtain fdm where "rd_machines rd =
      map (\<lambda>(m, old_id).
                  \<lparr> rm_name = lm_name m,
                    rm_cloneof_id = remap_ref idm NULL_ID_24 (lm_cloneof_id m),
                    rm_romof_id = remap_ref idm NULL_ID_24 (lm_romof_id m),
                    rm_description = lm_description m,
                    rm_year = lm_year m,
                    rm_manufacturer_id = remap_ref fdm NULL_ID_16 (lm_manufacturer_id m),
                    rm_old_id = old_id \<rparr>) nm" ..
  then show ?thesis
    by (intro exI [of _ idm] exI [of _ fdm]) (simp add: nm comp_def case_prod_unfold)
qed

lemma pack_H_and: "\<exists>bs. pack_H (x AND 0xFFFF) = Inr bs"
proof -
  have "0 \<le> x AND 65535" by (simp add: and_nonnegative_int_iff)
  moreover have "x AND 65535 \<le> 65535" by (rule AND_upper2) simp
  ultimately show ?thesis by (simp add: pack_H_def pack_uint_def)
qed

lemma le_bytes_4:
  "le_bytes 4 v = [word_of_int v, word_of_int (v div 256), word_of_int (v div 256 div 256),
                   word_of_int (v div 256 div 256 div 256)]"
  by (simp add: eval_nat_numeral)

lemma write_uint24_null: "write_uint24 NULL_ID_24 = Inr [255, 255, 255]"
  by (simp add: write_uint24_def pack_I_def pack_uint_def NULL_ID_24_def le_bytes_4)

lemma pack_I_zero: "pack_I 0 = Inr [0, 0, 0, 0]"
  by (simp add: pack_I_def pack_uint_def le_bytes_4)

lemma example_ld_machines:
  "ld_machines (load_database example_db 11 23) =
     [(1, \<lparr> lm_name = pystr_of ''pacman'', lm_cloneof_id = None, lm_romof_id = None,
            lm_description = Some [1, 2, 3], lm_year = 0, lm_manufacturer_id = Some 1 \<rparr>),
      (2, \<lparr> lm_name = pystr_of ''puckman'', lm_cloneof_id = Some 1, lm_romof_id = None,
            lm_description = None, lm_year = 1980, lm_manufacturer_id = Some 1 \<rparr>)]"
  by (simp add: load_database_machines example_db_def dict_of_rows_def load_machine_def)

lemma example_ld_machine_roms:
  "lmr_machine_id ` set (ld_machine_roms (load_database example_db 11 23)) = {1, 2}"
  by (auto simp: load_database_def Let_def example_db_def select_rom_def List.map_filter_def
        example_sha1_def load_machine_rom_def)

subsection \<open>The strings pool\<close>

lemma pool_loop_other:
  "pool_loop ss pool om = Inr (pool', om') \<Longrightarrow> s \<notin> set ss \<Longrightarrow> om' s = om s"
proof (induction ss arbitrary: pool om)
  case Nil
  then show ?case by simp
next
  case (Cons t ss)
  from Cons.prems(1) obtain bs where bs: "utf8_encode t = Inr bs"
    and rest: "pool_loop ss (pool @ bs @ [0]) (om(t \<mapsto> length pool)) = Inr (pool', om')"
    by (auto split: sum.splits)
  from Cons.IH [OF rest] Cons.prems(2) show ?case by simp
qed

lemma pool_loop_Inr:
  "pool_loop ss pool om = Inr (pool', om') \<Longrightarrow> distinct ss \<Longrightarrow>
   \<exists>encs. map utf8_encode ss = map Inr encs \<and> pool' = pool @ nul_terminated encs \<and>
     (\<forall>i < length ss. om' (ss ! i) = Some (length pool + length (nul_terminated (take i encs))))"
proof (induction ss arbitrary: pool om)
  case Nil
  then show ?case by (simp add: nul_terminated_def)
next
  case (Cons t ss)
  from Cons.prems(1) obtain bs where bs: "utf8_encode t = Inr bs"
    and rest: "pool_loop ss (pool @ bs @ [0]) (om(t \<mapsto> length pool)) = Inr (pool', om')"
    by (auto split: sum.splits)
  from Cons.prems(2) have d: "distinct ss" "t \<notin> set ss" by auto
  from Cons.IH [OF rest d(1)] obtain encs where
    e: "map utf8_encode ss = map Inr encs" "pool' = (pool @ bs @ [0]) @ nul_terminated encs"
    "\<forall>i < length ss. om' (ss ! i) =
        Some (length (pool @ bs @ [0]) + length (nul_terminated (take i encs)))"
    by blast
  have t: "om' t = Some (length pool)"
    using pool_loop_other [OF rest d(2)] by simp
  have "\<forall>i < length (t # ss). om' ((t # ss) ! i) =
          Some (length pool + length (nul_terminated (take i (bs # encs))))"
  proof (intro allI impI)
    fix i assume i: "i < length (t # ss)"
    show "om' ((t # ss) ! i) = Some (length pool + length (nul_terminated (take i (bs # encs))))"
    proof (cases i)
      case 0
      then show ?thesis by (simp add: t nul_terminated_def)
    next
      case (Suc j)
      with i e(3) show ?thesis by (simp add: nul_terminated_def)
    qed
  qed
  with e(1,2) bs show ?case
    by (intro exI [of _ "bs # encs"]) (simp add: nul_terminated_def)
qed

lemma pool_loop_dom:
  "pool_loop ss pool om = Inr (pool', om') \<Longrightarrow> dom om' = dom om \<union> set ss"
proof (induction ss arbitrary: pool om)
  case Nil
  then show ?case by simp
next
  case (Cons t ss)
  from Cons.prems(1) obtain bs where bs: "utf8_encode t = Inr bs"
    and rest: "pool_loop ss (pool @ bs @ [0]) (om(t \<mapsto> length pool)) = Inr (pool', om')"
    by (auto split: sum.splits)
  from Cons.IH [OF rest] show ?case by auto
qed

lemma sort_hash_order:
  assumes "\<forall>xs. mset (hash_order xs) = mset xs"
  shows "sort (hash_order xs) = sort xs"
  by (rule properties_for_sort) (simp_all add: assms)

lemma collected_names:
  "set (List.map_filter id (collect_strings data)) = referenced_strings data"
  by (force simp: collect_strings_def referenced_strings_def List.map_filter_def image_iff)

lemma build_strings_pool_strings:
  assumes "\<forall>xs. mset (hash_order xs) = mset xs"
  shows "build_strings_pool hash_order data =
     (if None \<in> set (rd_manufacturers data) then Inl TypeError
      else pool_loop (pool_strings data) [] Map.empty)"
proof -
  have "sort (hash_order (remdups (List.map_filter id (collect_strings data)))) = pool_strings data"
    by (simp add: sort_hash_order [OF assms] pool_strings_def sorted_list_of_set_sort_remdups
          flip: collected_names)
  moreover have "(None \<in> set (collect_strings data)) = (None \<in> set (rd_manufacturers data))"
    by (auto simp: collect_strings_def)
  ultimately show ?thesis by (simp add: build_strings_pool_def Let_def)
qed

lemma finite_referenced_strings: "finite (referenced_strings data)"
proof -
  have "{n. Some n \<in> set (rd_manufacturers data)} = the ` (set (rd_manufacturers data) - {None})"
    by force
  then show ?thesis by (simp add: referenced_strings_def)
qed

lemma sorted_Nil_first:
  assumes "sorted (ss :: pystr list)" "[] \<in> set ss"
  shows "ss \<noteq> [] \<and> ss ! 0 = []"
proof -
  from assms(2) have ne: "ss \<noteq> []" by auto
  then obtain t ts where ss: "ss = t # ts" by (cases ss) auto
  with assms have "t \<le> []" by auto
  then have "t = []" by (simp add: list_le_def)
  with ss show ?thesis by simp
qed

lemma utf8_encode_Nil: "utf8_encode [] = Inr []"
  by (simp add: utf8_encode_def)

lemma nul_terminated_take_pos:
  "0 < i \<Longrightarrow> i \<le> length encs \<Longrightarrow> 0 < length (nul_terminated (take i encs))"
  by (cases encs; cases i) (simp_all add: nul_terminated_def)

text \<open>
  Claim C9. Whatever order the run's set of strings has, the strings pool holds the names of
  the manufacturers, ROM names and machines of the remapped catalogue (no description),
  each once, in lexicographic order, each as its UTF-8 bytes followed by one NUL byte; the
  offset of a string is the position of its first byte; and an empty string among them
  has offset 0 and takes the single byte 0 at the head of the pool.
\<close>

theorem strings_pool_layout:
  assumes "\<forall>xs. mset (hash_order xs) = mset xs"
    and "build_strings_pool hash_order data = Inr (pool, offsets)"
  shows "set (pool_strings data) = referenced_strings data \<and>
         sorted_wrt (<) (pool_strings data) \<and>
         (\<exists>encs. map utf8_encode (pool_strings data) = map Inr encs \<and>
            pool = nul_terminated encs \<and>
            (\<forall>i < length (pool_strings data).
               offsets (pool_strings data ! i) = Some (length (nul_terminated (take i encs))))) \<and>
         dom offsets = referenced_strings data \<and>
         ([] \<in> referenced_strings data \<longrightarrow>
            offsets [] = Some 0 \<and> take 1 pool = [0] \<and>
            (\<forall>s \<in> referenced_strings data. s \<noteq> [] \<longrightarrow> (\<exists>k. offsets s = Some (Suc k))))"
proof -
  let ?ss = "pool_strings data"
  have set_ss: "set ?ss = referenced_strings data"
    by (simp add: pool_strings_def finite_referenced_strings)
  have strict: "sorted_wrt (<) ?ss"
    by (simp add: pool_strings_def)
  then have sd: "sorted ?ss" "distinct ?ss" by (simp_all add: strict_sorted_iff)
  from assms have loop: "pool_loop ?ss [] Map.empty = Inr (pool, offsets)"
    by (simp add: build_strings_pool_strings split: if_splits)
  from pool_loop_Inr [OF loop sd(2)] obtain encs where
    e: "map utf8_encode ?ss = map Inr encs" "pool = nul_terminated encs"
       "\<forall>i < length ?ss. offsets (?ss ! i) = Some (length (nul_terminated (take i encs)))"
    by auto
  from e(1) have len: "length encs = length ?ss" by (metis length_map)
  have dom: "dom offsets = referenced_strings data"
    using pool_loop_dom [OF loop] set_ss by simp
  have empty: "offsets [] = Some 0 \<and> take 1 pool = [0] \<and>
            (\<forall>s \<in> referenced_strings data. s \<noteq> [] \<longrightarrow> (\<exists>k. offsets s = Some (Suc k)))"
    if "[] \<in> referenced_strings data"
  proof -
    from that set_ss sorted_Nil_first [OF sd(1)] have ne: "?ss \<noteq> []" and first: "?ss ! 0 = []"
      by auto
    from ne e(3) first have o: "offsets [] = Some 0"
      by (auto simp: nul_terminated_def)
    from ne len obtain b bs where encs: "encs = b # bs" by (cases encs) auto
    from e(1) ne first have "utf8_encode [] = Inr b"
      by (cases ?ss) (auto simp: encs)
    then have "b = []" by (simp add: utf8_encode_Nil)
    then have p: "take 1 pool = [0]" by (simp add: e(2) encs nul_terminated_def)
    have others: "\<exists>k. offsets s = Some (Suc k)" if s: "s \<in> referenced_strings data" "s \<noteq> []" for s
    proof -
      from s set_ss have "s \<in> set ?ss" by simp
      then obtain i where i: "i < length ?ss" "?ss ! i = s"
        by (auto simp: in_set_conv_nth)
      with first s(2) have "0 < i" by (cases i) auto
      from nul_terminated_take_pos [OF this] i len
      have "0 < length (nul_terminated (take i encs))" by simp
      then obtain k where "length (nul_terminated (take i encs)) = Suc k"
        by (cases "length (nul_terminated (take i encs))") auto
      with e(3) i show ?thesis by auto
    qed
    from o p others show ?thesis by blast
  qed
  from set_ss strict e dom empty show ?thesis by blast
qed

lemma example_strings_pool:
  "map_sum id fst (build_strings_pool id example_remapped) =
     Inr (0 # map of_nat (pystr_of ''Namco'') @ 0 # map of_nat (pystr_of ''a.rom'') @
          0 # map of_nat (pystr_of ''pacman'') @ [0])"
  by (simp add: build_strings_pool_def collect_strings_def example_remapped_def
        List.map_filter_def pystr_of_def utf8_encode_def utf8_char_def)

theorem strings_pool_layout_witness:
  "(\<forall>xs :: pystr list. mset (id xs) = mset xs) \<and>
   (\<exists>pool offsets. build_strings_pool id example_remapped = Inr (pool, offsets) \<and>
      [] \<in> referenced_strings example_remapped \<and> offsets [] = Some 0 \<and> take 1 pool = [0])"
proof -
  have h: "\<forall>xs :: pystr list. mset (id xs) = mset xs" by simp
  from example_strings_pool obtain pool offsets where
    b: "build_strings_pool id example_remapped = Inr (pool, offsets)"
    by (cases "build_strings_pool id example_remapped") auto
  have m: "[] \<in> referenced_strings example_remapped"
    by (simp add: referenced_strings_def example_remapped_def)
  from strings_pool_layout [OF h b] m b h show ?thesis by blast
qed

text \<open>
  Claim C7. The one thing that differs between two runs is the order in which the set of
  strings yields its elements. Whatever the two orders, the Remapper and the PoolBuilder
  return the same strings pool and descriptions pool for a catalogue, and \<open>main\<close> the same
  blob.
\<close>

theorem pools_deterministic:
  assumes "\<forall>xs. mset (h1 xs) = mset xs" and "\<forall>xs. mset (h2 xs) = mset xs"
  shows "build_pools h1 data mn mx = build_pools h2 data mn mx \<and>
         generate h1 db mn mx = generate h2 db mn mx"
proof -
  have eq: "build_strings_pool h1 = build_strings_pool h2"
    by (rule ext) (simp add: build_strings_pool_strings assms)
  show ?thesis unfolding build_pools_def generate_def eq by simp
qed

theorem pools_deterministic_witness:
  "(\<forall>xs :: pystr list. mset (id xs) = mset xs) \<and> (\<forall>xs :: pystr list. mset (rev xs) = mset xs) \<and>
   build_pools id (load_database example_db 11 23) 11 23 =
     build_pools rev (load_database example_db 11 23) 11 23 \<and>
   generate id example_db 11 23 = generate rev example_db 11 23"
proof -
  have h1: "\<forall>xs :: pystr list. mset (id xs) = mset xs" by simp
  have h2: "\<forall>xs :: pystr list. mset (rev xs) = mset xs" by simp
  from pools_deterministic [OF h1 h2, where data = "load_database example_db 11 23"
      and mn = 11 and mx = 23 and db = example_db] h1 h2
  show ?thesis by blast
qed

subsection \<open>The order of the ROM table\<close>

lemma sorted_pairs_class:
  "sorted (map (\<lambda>r. (f r, g r)) xs) \<Longrightarrow> sorted (map g (filter (\<lambda>r. f r = s) xs))"
  by (induction xs) (auto simp: less_eq_prod_def)

lemma remap_ids_rom_keys:
  assumes "remap_ids data mn mx = Inr rd"
  shows "map (\<lambda>r. (rr_size_pow2 r, rr_sha1 r)) (rd_roms rd) =
         map (\<lambda>r. (lr_size_pow2 r, lr_sha1 r)) (ld_roms data)"
  using remap_ids_roms [OF assms] by (auto simp: list_eq_iff_nth_eq)

lemma load_database_roms_sorted:
  "sorted (map (\<lambda>r. (lr_size_pow2 r, lr_sha1 r)) (ld_roms (load_database db mn mx)))"
  by (simp add: load_database_roms)

lemma remap_ids_new_id:
  assumes rd: "remap_ids (load_database db mn mx) mn mx = Inr rd" and k: "k < length (rd_roms rd)"
  shows "class_index (map rr_size_pow2 (rd_roms rd)) k \<le> 0xFFFF \<and>
         rr_new_id (rd_roms rd ! k) =
           Some (push_bit 16 (rr_size_pow2 (rd_roms rd ! k)) OR
                 int (class_index (map rr_size_pow2 (rd_roms rd)) k))"
proof -
  let ?roms = "ld_roms (load_database db mn mx)"
  from remap_ids_roms [OF rd] obtain st where
    st: "remap_rom_ids ?roms mn mx = Inr st" and
    len: "length (rd_roms rd) = length ?roms" and
    flds: "\<forall>k < length ?roms.
            rr_size_pow2 (rd_roms rd ! k) = lr_size_pow2 (?roms ! k) \<and>
            rr_new_id (rd_roms rd ! k) = rs_new_ids st k"
    by blast
  have sizes: "map rr_size_pow2 (rd_roms rd) = map lr_size_pow2 ?roms"
    using len flds by (simp add: list_eq_iff_nth_eq)
  from k len have kr: "k < length ?roms" by simp
  then have mem: "?roms ! k \<in> set ?roms" by simp
  from load_database_roms_band [OF mem]
  have band: "mn \<le> lr_size_pow2 (?roms ! k)" "lr_size_pow2 (?roms ! k) \<le> mx" by simp_all
  from remap_rom_ids_new_id [OF st kr band]
  have nid: "rs_new_ids st k =
     Some (push_bit 16 (lr_size_pow2 (?roms ! k)) OR int (class_index (map lr_size_pow2 ?roms) k))" .
  let ?P = "\<lambda>r. lr_size_pow2 r = lr_size_pow2 (?roms ! k)"
  have "\<not> length (filter ?P ?roms) > 65536"
  proof
    assume "length (filter ?P ?roms) > 65536"
    with band have "remap_rom_ids ?roms mn mx = Inl ValueError"
      by (auto simp: remap_rom_ids_Inl)
    with st show False by simp
  qed
  moreover have "class_index (map lr_size_pow2 ?roms) k < length (filter ?P ?roms)"
    using class_index_lt [of k ?roms ?P] kr
    by (simp add: class_index_def take_map filter_map comp_def)
  ultimately have "class_index (map lr_size_pow2 ?roms) k \<le> 65535" by simp
  with nid flds kr show ?thesis by (simp add: sizes)
qed

lemma rom_entry_bytes:
  assumes "rom_entry rom = Inr bs" "length (rr_sha1 rom) = 20"
  shows "length bs = 23 \<and> take 20 bs = rr_sha1 rom"
proof -
  from assms(2) have ne: "rr_sha1 rom \<noteq> []" by auto
  with assms(1) obtain b where b: "write_uint24 (rr_name_id rom) = Inr b" "bs = rr_sha1 rom @ b"
    by (auto simp: rom_entry_def econcat_Cons econcat_Nil split: sum.splits)
  from write_uint24_length [OF b(1)] assms(2) b(2) show ?thesis by simp
qed

lemma rom_table_ascending:
  assumes "remap_ids (load_database db mn mx) mn mx = Inr rd"
  shows "sorted (map (\<lambda>r. (rr_size_pow2 r, rr_sha1 r)) (rd_roms rd)) \<and>
         (\<forall>s. sorted (map rr_sha1 (filter (\<lambda>r. rr_size_pow2 r = s) (rd_roms rd))) \<and>
              (distinct (map rr_sha1 (filter (\<lambda>r. rr_size_pow2 r = s) (rd_roms rd))) \<longrightarrow>
               sorted_wrt (<) (map rr_sha1 (filter (\<lambda>r. rr_size_pow2 r = s) (rd_roms rd))))) \<and>
         (\<forall>k < length (rd_roms rd).
            class_index (map rr_size_pow2 (rd_roms rd)) k \<le> 0xFFFF \<and>
            rr_new_id (rd_roms rd ! k) =
              Some (push_bit 16 (rr_size_pow2 (rd_roms rd ! k)) OR
                    int (class_index (map rr_size_pow2 (rd_roms rd)) k)) \<and>
            (\<forall>bs. rom_entry (rd_roms rd ! k) = Inr bs \<longrightarrow>
                  length bs = 23 \<and> take 20 bs = rr_sha1 (rd_roms rd ! k)))"
proof -
  have srt: "sorted (map (\<lambda>r. (rr_size_pow2 r, rr_sha1 r)) (rd_roms rd))"
    by (simp only: remap_ids_rom_keys [OF assms] load_database_roms_sorted)
  have cls: "sorted (map rr_sha1 (filter (\<lambda>r. rr_size_pow2 r = s) (rd_roms rd)))" for s
    by (rule sorted_pairs_class [OF srt])
  have strict: "sorted_wrt (<) (map rr_sha1 (filter (\<lambda>r. rr_size_pow2 r = s) (rd_roms rd)))"
    if "distinct (map rr_sha1 (filter (\<lambda>r. rr_size_pow2 r = s) (rd_roms rd)))" for s
    using cls [of s] that by (simp add: strict_sorted_iff)
  have ent: "class_index (map rr_size_pow2 (rd_roms rd)) k \<le> 0xFFFF \<and>
            rr_new_id (rd_roms rd ! k) =
              Some (push_bit 16 (rr_size_pow2 (rd_roms rd ! k)) OR
                    int (class_index (map rr_size_pow2 (rd_roms rd)) k)) \<and>
            (\<forall>bs. rom_entry (rd_roms rd ! k) = Inr bs \<longrightarrow>
                  length bs = 23 \<and> take 20 bs = rr_sha1 (rd_roms rd ! k))"
    if k: "k < length (rd_roms rd)" for k
  proof -
    let ?roms = "ld_roms (load_database db mn mx)"
    from remap_ids_roms [OF assms] k have kr: "k < length ?roms"
      and sha: "rr_sha1 (rd_roms rd ! k) = lr_sha1 (?roms ! k)" by auto
    from kr have "?roms ! k \<in> set ?roms" by simp
    from load_database_roms_band [OF this] sha have "length (rr_sha1 (rd_roms rd ! k)) = 20"
      by simp
    with rom_entry_bytes remap_ids_new_id [OF assms k] show ?thesis by blast
  qed
  from srt cls strict ent show ?thesis by blast
qed

subsection \<open>Two ROMs with one SHA-1\<close>

lemma pystr_of_eq [simp]: "(pystr_of a = pystr_of b) = (a = b)"
proof -
  have "inj (of_char :: char \<Rightarrow> nat)" by (rule injI) simp
  then show ?thesis by (simp add: pystr_of_def inj_map_eq_map)
qed

lemma pystr_of_Nil [simp]: "(pystr_of a = []) = (a = [])"
  by (simp add: pystr_of_def)

lemma hex_lower:
  "bytes_fromhex (pystr_of ''aaaaaaaaaaaaaaaaaaaaaaaaaaaaaaaaaaaaaaaa'') = Inr (replicate 20 0xAA)"
  by (simp add: pystr_of_def hex_digit_def is_ascii_space_def eval_nat_numeral)

lemma hex_upper:
  "bytes_fromhex (pystr_of ''AAAAAAAAAAAAAAAAAAAAAAAAAAAAAAAAAAAAAAAA'') = Inr (replicate 20 0xAA)"
  by (simp add: pystr_of_def hex_digit_def is_ascii_space_def eval_nat_numeral)

lemma decimal_2048: "decimal_int (pystr_of ''2048'') = Some 2048"
  by (simp add: decimal_int_def pystr_of_def)

lemma int_log2_2048: "int_log2 2048 = 11"
  by (simp add: int_log2_def)

lemma is_valid_2048: "is_valid_rom_size (Some 2048)"
  by (simp add: is_valid_rom_size_def MIN_ROM_SIZE_def MAX_ROM_SIZE_def)

lemma parse_case_rom:
  "h \<noteq> [] \<Longrightarrow> parse_rom example_lib (case_rom n h) =
     Some \<lparr> r_name = Some (pystr_of n), r_size = 2048, r_crc = None, r_sha1 = pystr_of h \<rparr>"
proof -
  have "pystr_of ''2048'' \<noteq> []" by simp
  then show "h \<noteq> [] \<Longrightarrow> ?thesis"
    by (simp add: parse_rom_def case_rom_def int_if_present_def example_lib_def decimal_2048
          is_valid_2048)
qed

lemma case_ingest: "ingest example_lib [case_dat] = Inr case_db"
  by (simp add: ingest_def process_dat_file_def process_elem_def parse_machine_def
        List.map_filter_def parse_case_rom case_dat_def example_machine_def initial_state_def
        create_database_def process_rom_def insert_rom_name_def insert_rom_def next_rowid_def
        insert_machine_def insert_machine_rom_def name_to_id_of_def resolve_def hex_lower
        hex_upper int_log2_2048 case_db_def build_state.extend_def build_state.truncate_def
        dat_state.defs build_state.defs Let_def)

lemma case_extract: "extract_neogeo_bios example_lib case_db = Inr case_db"
  by (simp add: extract_neogeo_bios_def find_bios_rom_ids_def joined_rom_ids_def
        NEOGEO_BIOS_THRESHOLD_def case_db_def Let_def)

lemma case_cleanup: "cleanup_orphans case_db = case_db"
  by (simp add: cleanup_orphans_def case_db_def Let_def)

lemma case_postprocess: "postprocess example_lib case_db = Inr case_db"
  by (simp add: postprocess_def case_extract case_cleanup)

lemma case_ld_roms:
  "ld_roms (load_database case_db 11 23) =
     [\<lparr>lr_old_id = 1, lr_sha1 = replicate 20 0xAA, lr_size_pow2 = 11, lr_name_id = Some 1\<rparr>,
      \<lparr>lr_old_id = 2, lr_sha1 = replicate 20 0xAA, lr_size_pow2 = 11, lr_name_id = Some 2\<rparr>]"
  by (simp add: load_database_roms case_db_def select_rom_def List.map_filter_def)

subsection \<open>A \<open>rom\<close> element without a SHA-1\<close>

lemma parse_rom_no_sha1:
  "re_sha1 r = None \<or> re_sha1 r = Some [] \<Longrightarrow> parse_rom lib r = None"
  by (auto simp: parse_rom_def Let_def split: option.splits)

lemma map_filter_append: "List.map_filter f (xs @ ys) = List.map_filter f xs @ List.map_filter f ys"
  by (simp add: List.map_filter_def)

lemma parse_machine_no_sha1:
  assumes "re_sha1 r = None \<or> re_sha1 r = Some []"
  shows "parse_machine lib (elem\<lparr>me_roms := pre @ r # post\<rparr>) =
         parse_machine lib (elem\<lparr>me_roms := pre @ post\<rparr>)"
  by (simp add: parse_machine_def map_filter_append parse_rom_no_sha1 [OF assms])

lemma process_elem_no_sha1:
  assumes "re_sha1 r = None \<or> re_sha1 r = Some []"
  shows "process_elem lib (elem\<lparr>me_roms := pre @ r # post\<rparr>) st =
         process_elem lib (elem\<lparr>me_roms := pre @ post\<rparr>) st"
  unfolding process_elem_def parse_machine_no_sha1 [OF assms] by simp

lemma process_elems_append:
  "process_elems lib (xs @ ys) st =
     (case process_elems lib xs st of Inl e \<Rightarrow> Inl e | Inr st1 \<Rightarrow> process_elems lib ys st1)"
  by (induction xs arbitrary: st) (auto split: sum.splits)

lemma process_dat_files_append:
  "process_dat_files lib (xs @ ys) st =
     (case process_dat_files lib xs st of Inl e \<Rightarrow> Inl e | Inr st1 \<Rightarrow> process_dat_files lib ys st1)"
  by (induction xs arbitrary: st) (auto split: sum.splits)

lemma process_elems_no_sha1:
  assumes "re_sha1 r = None \<or> re_sha1 r = Some []"
  shows "process_elems lib (before @ elem\<lparr>me_roms := pre @ r # post\<rparr> # after) st =
         process_elems lib (before @ elem\<lparr>me_roms := pre @ post\<rparr> # after) st"
  by (simp add: process_elems_append process_elem_no_sha1 [OF assms] split: sum.splits)

lemma process_dat_file_no_sha1:
  assumes "re_sha1 r = None \<or> re_sha1 r = Some []"
  shows "process_dat_file lib (before @ elem\<lparr>me_roms := pre @ r # post\<rparr> # after) st =
         process_dat_file lib (before @ elem\<lparr>me_roms := pre @ post\<rparr> # after) st"
  unfolding process_dat_file_def process_elems_no_sha1 [OF assms] by simp

text \<open>
  Claim C1, as the code has it. A \<open>rom\<close> element whose \<open>sha1\<close> attribute is missing or
  empty is dropped: whatever the rest of the documents, reading them gives what reading
  them without that element gives, so the element creates no Rom row and no MachineRom
  row, and the build ends with an error only if it does so without the element. (A
  \<open>sha1\<close> that is present is never checked to be 40 hexadecimal characters: see the
  counterexample.)
\<close>

theorem rom_without_sha1_dropped:
  assumes "re_sha1 r = None \<or> re_sha1 r = Some []"
  shows "ingest lib (dats1 @ (before @ elem\<lparr>me_roms := pre @ r # post\<rparr> # after) # dats2) =
         ingest lib (dats1 @ (before @ elem\<lparr>me_roms := pre @ post\<rparr> # after) # dats2) \<and>
         build lib (dats1 @ (before @ elem\<lparr>me_roms := pre @ r # post\<rparr> # after) # dats2) =
         build lib (dats1 @ (before @ elem\<lparr>me_roms := pre @ post\<rparr> # after) # dats2)"
proof -
  have "process_dat_files lib
          (dats1 @ (before @ elem\<lparr>me_roms := pre @ r # post\<rparr> # after) # dats2) st =
        process_dat_files lib
          (dats1 @ (before @ elem\<lparr>me_roms := pre @ post\<rparr> # after) # dats2) st" for st
    by (simp add: process_dat_files_append process_dat_file_no_sha1 [OF assms] split: sum.splits)
  then show ?thesis by (simp add: ingest_def build_def)
qed

subsection \<open>The layout of the blob\<close>

lemma bytes_at_append_left:
  "offset + n \<le> length a \<Longrightarrow> bytes_at (a @ b) offset n = bytes_at a offset n"
  by (simp add: bytes_at_def)

lemma bytes_at_append_right: "bytes_at (a @ b) (length a + offset) n = bytes_at b offset n"
  by (simp add: bytes_at_def)

lemma bytes_at_append_right': "length a = m \<Longrightarrow> bytes_at (a @ b) (m + offset) n = bytes_at b offset n"
  by (simp add: bytes_at_def)

lemma econcat_append:
  "econcat (ps @ qs) =
     (case econcat ps of Inl e \<Rightarrow> Inl e
      | Inr a \<Rightarrow> (case econcat qs of Inl e \<Rightarrow> Inl e | Inr b \<Rightarrow> Inr (a @ b)))"
  by (induction ps) (auto simp: econcat_Cons econcat_Nil split: sum.splits)

lemma econcat_map_fixed:
  assumes "econcat (map f xs) = Inr t"
    and "\<And>x b. x \<in> set xs \<Longrightarrow> f x = Inr b \<Longrightarrow> length b = n"
  shows "length t = n * length xs \<and> (\<forall>k < length xs. f (xs ! k) = Inr (bytes_at t (n * k) n))"
  using assms
proof (induction xs arbitrary: t)
  case Nil
  then show ?case by (simp add: econcat_Nil)
next
  case (Cons x xs)
  from Cons.prems(1) obtain b t' where b: "f x = Inr b" and t': "econcat (map f xs) = Inr t'"
    and t: "t = b @ t'"
    by (auto simp: econcat_Cons split: sum.splits)
  from Cons.prems(2) [of x b] b have lb: "length b = n" by simp
  have "length t' = n * length xs \<and> (\<forall>k < length xs. f (xs ! k) = Inr (bytes_at t' (n * k) n))"
    by (rule Cons.IH [OF t']) (rule Cons.prems(2), simp_all)
  then have len: "length t' = n * length xs"
    and ih: "\<And>k. k < length xs \<Longrightarrow> f (xs ! k) = Inr (bytes_at t' (n * k) n)"
    by simp_all
  show ?case
  proof (intro conjI allI impI)
    show "length t = n * length (x # xs)" using t lb len by simp
  next
    fix k
    assume k: "k < length (x # xs)"
    show "f ((x # xs) ! k) = Inr (bytes_at t (n * k) n)"
    proof (cases k)
      case 0
      then show ?thesis using b t lb by (simp add: bytes_at_def)
    next
      case (Suc j)
      have "bytes_at t (n * k) n = bytes_at t' (n * j) n"
        using bytes_at_append_right' [OF lb, of t' "n * j" n] by (simp add: t Suc)
      with ih [of j] k Suc show ?thesis by simp
    qed
  qed
qed

lemma le_int_le_bytes: "0 \<le> v \<Longrightarrow> v < 2 ^ (8 * n) \<Longrightarrow> le_int (le_bytes n v) = v"
proof (induction n arbitrary: v)
  case 0
  then show ?case by simp
next
  case (Suc n)
  from Suc.prems have "v < 256 * 2 ^ (8 * n)" by (simp add: power_add)
  then have "v div 256 < 2 ^ (8 * n)" by linarith
  moreover from Suc.prems have "0 \<le> v div 256" by simp
  ultimately have "le_int (le_bytes n (v div 256)) = v div 256" by (rule Suc.IH [rotated])
  moreover have "uint (word_of_int v :: 8 word) = v mod 256" by (simp add: uint_word_of_int)
  ultimately show ?case by simp
qed

lemma pack_I_value:
  assumes "pack_I v = Inr b"
  shows "length b = 4 \<and> 0 \<le> v \<and> le_int b = v"
  using assms by (auto simp: pack_I_def pack_uint_def length_le_bytes le_int_le_bytes split: if_splits)

lemma pack_B_length: "pack_B v = Inr bs \<Longrightarrow> length bs = 1"
  by (simp add: pack_B_def pack_uint_length)

lemma header_bytes_words:
  assumes "header_bytes ws mn mx = Inr hb" and "length ws = 13"
  shows "length hb = 64 \<and> (\<forall>i < 13. 0 \<le> ws ! i \<and> header_word (hb @ rest) i = nat (ws ! i))"
proof -
  from assms(1) obtain vb b1 b2 w where
    p: "pack_H VERSION = Inr vb" "pack_B mn = Inr b1" "pack_B mx = Inr b2"
    and w: "econcat (map pack_I ws) = Inr w"
    and hb: "hb = (MAGIC @ vb @ b1 @ b2) @ w @
               replicate (HEADER_SIZE - length ((MAGIC @ vb @ b1 @ b2) @ w)) 0"
    by (auto simp: header_bytes_def econcat_append econcat_Cons econcat_Nil split: sum.splits)
  from p have "length vb = 2" "length b1 = 1" "length b2 = 1"
    by (simp_all add: pack_H_length pack_B_length)
  then have l8: "length (MAGIC @ vb @ b1 @ b2) = 8"
    by (simp add: MAGIC_def)
  from econcat_map_fixed [OF w, of 4] assms(2)
  have lw: "length w = 52" and ws: "\<And>i. i < 13 \<Longrightarrow> pack_I (ws ! i) = Inr (bytes_at w (4 * i) 4)"
    by (auto dest: pack_I_length)
  from l8 lw have len: "length hb = 64" by (simp add: hb HEADER_SIZE_def)
  have "0 \<le> ws ! i \<and> header_word (hb @ rest) i = nat (ws ! i)" if i: "i < 13" for i
  proof -
    let ?pad = "replicate (HEADER_SIZE - length ((MAGIC @ vb @ b1 @ b2) @ w)) 0 @ rest"
    have "bytes_at (hb @ rest) (8 + 4 * i) 4 = bytes_at (w @ ?pad) (4 * i) 4"
      using bytes_at_append_right' [OF l8, of "w @ ?pad" "4 * i" 4] by (simp add: hb)
    also have "\<dots> = bytes_at w (4 * i) 4"
      using i lw by (intro bytes_at_append_left) simp
    finally have "bytes_at (hb @ rest) (8 + 4 * i) 4 = bytes_at w (4 * i) 4" .
    with pack_I_value [OF ws [OF i]] show ?thesis by (simp add: header_word_def)
  qed
  with len show ?thesis by blast
qed


lemma table_entries_eq:
  assumes blob: "blob = pre @ t @ post"
    and cnt: "header_word blob cw = length xs"
    and off: "xs \<noteq> [] \<Longrightarrow> header_word blob ow = length pre"
    and len: "length t = n * length xs"
    and ent: "\<And>k. k < length xs \<Longrightarrow> f (xs ! k) = Inr (bytes_at t (n * k) n)"
  shows "map Inr (table_entries blob cw ow n) = map f xs"
proof (rule nth_equalityI)
  show "length (map Inr (table_entries blob cw ow n)) = length (map f xs)"
    by (simp add: table_entries_def cnt)
next
  fix k
  assume "k < length (map Inr (table_entries blob cw ow n))"
  then have k: "k < length xs" by (simp add: table_entries_def cnt)
  then have ne: "xs \<noteq> []" by auto
  from k have "n * Suc k \<le> n * length xs" by (intro mult_le_mono2) simp
  with len have fit: "n * k + n \<le> length t" by simp
  have "bytes_at blob (length pre + n * k) n = bytes_at (t @ post) (n * k) n"
    by (simp add: blob bytes_at_append_right)
  also have "\<dots> = bytes_at t (n * k) n"
    by (rule bytes_at_append_left) (rule fit)
  finally have "bytes_at blob (length pre + n * k) n = bytes_at t (n * k) n" .
  with k ent [OF k] show "map Inr (table_entries blob cw ow n) ! k = map f xs ! k"
    by (simp add: table_entries_def cnt off [OF ne])
qed

lemma econcat_tables:
  assumes "econcat ([h] @ A @ B @ C @ D @ E) = Inr blob"
  shows "\<exists>hb a b c d e. h = Inr hb \<and> econcat A = Inr a \<and> econcat B = Inr b \<and>
           econcat C = Inr c \<and> econcat D = Inr d \<and> econcat E = Inr e \<and>
           blob = hb @ a @ b @ c @ d @ e"
  using assms by (auto simp: econcat_append econcat_Cons econcat_Nil split: sum.splits)

lemma layout_tables:
  assumes cat: "econcat ([header_bytes ws mn mx] @ map f0 xs0 @ map f1 xs1 @ map f2 xs2 @
                          map f3 xs3 @ tail) = Inr blob"
    and ws: "length ws = 13" "ws ! 0 = int (length xs1)" "ws ! 1 = int (length xs2)"
      "ws ! 2 = int (length xs3)"
      "ws ! 7 = ws ! 6 + int (length xs1) * 23" "ws ! 8 = ws ! 7 + int (length xs2) * 20"
    and off: "ws ! 6 = 64 + 8 * int (length xs0) \<or> (xs1 = [] \<and> xs2 = [] \<and> xs3 = [])"
    and sz: "\<And>x b. x \<in> set xs0 \<Longrightarrow> f0 x = Inr b \<Longrightarrow> length b = 8"
      "\<And>x b. x \<in> set xs1 \<Longrightarrow> f1 x = Inr b \<Longrightarrow> length b = 23"
      "\<And>x b. x \<in> set xs2 \<Longrightarrow> f2 x = Inr b \<Longrightarrow> length b = 20"
      "\<And>x b. x \<in> set xs3 \<Longrightarrow> f3 x = Inr b \<Longrightarrow> length b = 9"
  shows "map Inr (table_entries blob 0 6 23) = map f1 xs1 \<and>
         map Inr (table_entries blob 1 7 20) = map f2 xs2 \<and>
         map Inr (table_entries blob 2 8 9) = map f3 xs3"
proof -
  from econcat_tables [OF cat] obtain hb t0 t1 t2 t3 rest where
    hb: "header_bytes ws mn mx = Inr hb" and
    t: "econcat (map f0 xs0) = Inr t0" "econcat (map f1 xs1) = Inr t1"
       "econcat (map f2 xs2) = Inr t2" "econcat (map f3 xs3) = Inr t3" and
    blob: "blob = hb @ t0 @ t1 @ t2 @ t3 @ rest"
    by blast
  from header_bytes_words [OF hb ws(1), of "t0 @ t1 @ t2 @ t3 @ rest"]
  have lhb: "length hb = 64"
    and w: "\<And>i. i < 13 \<Longrightarrow> 0 \<le> ws ! i \<and> header_word blob i = nat (ws ! i)"
    by (simp_all add: blob)
  from econcat_map_fixed [OF t(1) sz(1)]
  have l0: "length t0 = 8 * length xs0" by simp
  from econcat_map_fixed [OF t(2) sz(2)]
  have l1: "length t1 = 23 * length xs1"
    and e1: "\<And>k. k < length xs1 \<Longrightarrow> f1 (xs1 ! k) = Inr (bytes_at t1 (23 * k) 23)" by simp_all
  from econcat_map_fixed [OF t(3) sz(3)]
  have l2: "length t2 = 20 * length xs2"
    and e2: "\<And>k. k < length xs2 \<Longrightarrow> f2 (xs2 ! k) = Inr (bytes_at t2 (20 * k) 20)" by simp_all
  from econcat_map_fixed [OF t(4) sz(4)]
  have l3: "length t3 = 9 * length xs3"
    and e3: "\<And>k. k < length xs3 \<Longrightarrow> f3 (xs3 ! k) = Inr (bytes_at t3 (9 * k) 9)" by simp_all
  have c1: "header_word blob 0 = length xs1" using w [of 0] ws by simp
  have c2: "header_word blob 1 = length xs2" using w [of 1] ws by simp
  have c3: "header_word blob 2 = length xs3" using w [of 2] ws by simp
  have o1: "header_word blob 6 = length (hb @ t0)" if "xs1 \<noteq> []"
    using w [of 6] off that by (simp add: lhb l0 nat_add_distrib nat_mult_distrib)
  have o2: "header_word blob 7 = length (hb @ t0 @ t1)" if "xs2 \<noteq> []"
    using w [of 6] w [of 7] off that ws(5)
    by (simp add: lhb l0 l1 nat_add_distrib nat_mult_distrib)
  have o3: "header_word blob 8 = length (hb @ t0 @ t1 @ t2)" if "xs3 \<noteq> []"
    using w [of 6] w [of 7] w [of 8] off that ws(5,6)
    by (simp add: lhb l0 l1 l2 nat_add_distrib nat_mult_distrib)
  have b1: "blob = (hb @ t0) @ t1 @ (t2 @ t3 @ rest)"
    and b2: "blob = (hb @ t0 @ t1) @ t2 @ (t3 @ rest)"
    and b3: "blob = (hb @ t0 @ t1 @ t2) @ t3 @ rest"
    by (simp_all add: blob)
  have "map Inr (table_entries blob 0 6 23) = map f1 xs1"
    by (rule table_entries_eq [OF b1 c1 o1 l1 e1])
  moreover have "map Inr (table_entries blob 1 7 20) = map f2 xs2"
    by (rule table_entries_eq [OF b2 c2 o2 l2 e2])
  moreover have "map Inr (table_entries blob 2 8 9) = map f3 xs3"
    by (rule table_entries_eq [OF b3 c3 o3 l3 e3])
  ultimately show ?thesis by blast
qed


lemma size_index_entry_length: "size_index_entry si s = Inr b \<Longrightarrow> length b = 8"
  by (auto simp: size_index_entry_def econcat_Cons econcat_Nil split: prod.splits sum.splits
           dest!: pack_I_length)

lemma machine_entry_length: "machine_entry so di p = Inr b \<Longrightarrow> length b = 20"
  by (auto simp: machine_entry_def Let_def econcat_Cons econcat_Nil
           split: prod.splits sum.splits
           dest!: pack_I_length pack_H_length write_uint24_length)

lemma machine_rom_entry_length: "machine_rom_entry mr = Inr b \<Longrightarrow> length b = 9"
  by (auto simp: machine_rom_entry_def econcat_Cons econcat_Nil split: sum.splits
           dest!: write_uint24_length)

lemma generate_binary_layout:
  assumes gb: "generate_binary data sp so dp di mn mx = Inr blob"
    and sha: "\<And>r. r \<in> set (rd_roms data) \<Longrightarrow> length (rr_sha1 r) = 20"
    and band: "mn \<le> mx + 1 \<or>
               (rd_roms data = [] \<and> rd_machines data = [] \<and> rd_machine_roms data = [])"
  shows "map Inr (blob_roms blob) = map rom_entry (rd_roms data) \<and>
         map Inr (blob_machines blob) =
           map (machine_entry so di) (List.enumerate 0 (rd_machines data)) \<and>
         map Inr (blob_machine_roms blob) = map machine_rom_entry (rd_machine_roms data)"
  unfolding blob_roms_def blob_machines_def blob_machine_roms_def
  by (rule layout_tables [OF gb [unfolded generate_binary_def Let_def]])
     (use band sha in \<open>auto simp: HEADER_SIZE_def size_index_entry_length machine_entry_length
          machine_rom_entry_length dest: rom_entry_bytes\<close>)


lemma remap_ids_machine_roms:
  assumes "remap_ids data mn mx = Inr rd"
  shows "\<exists>f. rd_machine_roms rd =
           sort_key (\<lambda>x. (rmr_rom_id x, rmr_machine_id x)) (List.map_filter f (ld_machine_roms data))"
  using assms by (auto simp: remap_ids_def Let_def split: sum.splits prod.splits)

lemma empty_band:
  assumes "mx < mn"
  shows "ld_roms (load_database db mn mx) = [] \<and> ld_machine_roms (load_database db mn mx) = []"
proof -
  have "select_rom mn mx r = None" for r
    using assms by (auto simp: select_rom_def split: option.splits)
  then have "List.map_filter (select_rom mn mx) (roms db) = []"
    by (simp add: List.map_filter_def)
  then show ?thesis by (simp add: load_database_def Let_def)
qed

lemma remap_ids_empty_band:
  assumes rd: "remap_ids (load_database db mn mx) mn mx = Inr rd" and "mx < mn"
  shows "rd_roms rd = [] \<and> rd_machines rd = [] \<and> rd_machine_roms rd = []"
proof -
  from empty_band [OF assms(2), of db]
  have e: "ld_roms (load_database db mn mx) = []" "ld_machine_roms (load_database db mn mx) = []"
    by simp_all
  from remap_ids_roms [OF rd] e have "rd_roms rd = []" by auto
  moreover from remap_ids_machines [OF rd] e have "rd_machines rd = []" by simp
  moreover from remap_ids_machine_roms [OF rd] e have "rd_machine_roms rd = []"
    by (auto simp: List.map_filter_def)
  ultimately show ?thesis by simp
qed

lemma remap_ids_sha1_length:
  assumes rd: "remap_ids (load_database db mn mx) mn mx = Inr rd" and r: "r \<in> set (rd_roms rd)"
  shows "length (rr_sha1 r) = 20"
proof -
  let ?roms = "ld_roms (load_database db mn mx)"
  from r obtain k where k: "k < length (rd_roms rd)" "r = rd_roms rd ! k"
    by (auto simp: in_set_conv_nth)
  with remap_ids_roms [OF rd] have kr: "k < length ?roms" and "rr_sha1 r = lr_sha1 (?roms ! k)"
    by auto
  moreover from kr have "?roms ! k \<in> set ?roms" by simp
  ultimately show ?thesis using load_database_roms_band [of "?roms ! k" db mn mx] by simp
qed

lemma generate_layout:
  assumes "generate hash_order db mn mx = Inr blob"
  shows "\<exists>rd sp so. remap_ids (load_database db mn mx) mn mx = Inr rd \<and>
           build_strings_pool hash_order rd = Inr (sp, so) \<and>
           map Inr (blob_roms blob) = map rom_entry (rd_roms rd) \<and>
           map Inr (blob_machines blob) =
             map (machine_entry so (snd (build_descriptions_pool rd)))
               (List.enumerate 0 (rd_machines rd)) \<and>
           map Inr (blob_machine_roms blob) = map machine_rom_entry (rd_machine_roms rd)"
proof -
  from assms obtain rd sp so where
    rd: "remap_ids (load_database db mn mx) mn mx = Inr rd" and
    sp: "build_strings_pool hash_order rd = Inr (sp, so)" and
    gb: "generate_binary rd sp so (fst (build_descriptions_pool rd))
           (snd (build_descriptions_pool rd)) mn mx = Inr blob"
    by (auto simp: generate_def case_prod_unfold Let_def split: sum.splits)
  have band: "mn \<le> mx + 1 \<or> (rd_roms rd = [] \<and> rd_machines rd = [] \<and> rd_machine_roms rd = [])"
    using remap_ids_empty_band [OF rd] by (cases "mx < mn") auto
  from generate_binary_layout [OF gb remap_ids_sha1_length [OF rd] band] rd sp
  show ?thesis by blast
qed

subsection \<open>The blobs of the two example catalogues\<close>

lemma le_bytes_2: "le_bytes 2 v = [word_of_int v, word_of_int (v div 256)]"
  by (simp add: eval_nat_numeral)

lemma le_bytes_1: "le_bytes 1 v = [word_of_int v]"
  by simp

lemma replicate_4: "replicate 4 x = [x, x, x, x]"
  by (simp add: eval_nat_numeral)

lemma replicate_19:
  "replicate 19 x = [x, x, x, x, x, x, x, x, x, x, x, x, x, x, x, x, x, x, x]"
  by (simp add: eval_nat_numeral)

lemma replicate_20:
  "replicate 20 x = [x, x, x, x, x, x, x, x, x, x, x, x, x, x, x, x, x, x, x, x]"
  by (simp add: eval_nat_numeral)

lemmas entry_defs =
  header_bytes_def size_index_entry_def rom_entry_def machine_entry_def machine_rom_entry_def
  manufacturer_entry_def rom_name_entry_def econcat_Cons econcat_Nil pack_B_def pack_H_def
  pack_I_def pack_uint_def write_uint24_def le_bytes_4 le_bytes_2 le_bytes_1 map_get_def
  list_get_def MAGIC_def VERSION_def HEADER_SIZE_def ROM_ENTRY_SIZE_def replicate_4

lemma example_load:
  "load_database example_db 11 23 =
     \<lparr>ld_manufacturers = [(1, Some (pystr_of ''Namco''))],
      ld_rom_names = [(1, pystr_of ''a.rom''), (2, pystr_of ''b.rom'')],
      ld_roms =
        [\<lparr>lr_old_id = 2, lr_sha1 = example_sha1 3, lr_size_pow2 = 14, lr_name_id = Some 2\<rparr>,
         \<lparr>lr_old_id = 1, lr_sha1 = example_sha1 7, lr_size_pow2 = 14, lr_name_id = Some 1\<rparr>],
      ld_machines =
        [(1, \<lparr>lm_name = pystr_of ''pacman'', lm_cloneof_id = None, lm_romof_id = None,
               lm_description = Some [1, 2, 3], lm_year = 0, lm_manufacturer_id = Some 1\<rparr>),
         (2, \<lparr>lm_name = pystr_of ''puckman'', lm_cloneof_id = Some 1, lm_romof_id = None,
               lm_description = None, lm_year = 1980, lm_manufacturer_id = Some 1\<rparr>)],
      ld_machine_roms =
        [\<lparr>lmr_machine_id = 1, lmr_rom_id = 1, lmr_name_id = Some 1\<rparr>,
         \<lparr>lmr_machine_id = 2, lmr_rom_id = 1, lmr_name_id = Some 2\<rparr>,
         \<lparr>lmr_machine_id = 2, lmr_rom_id = 2, lmr_name_id = Some 2\<rparr>]\<rparr>"
  by (simp add: load_database_def example_db_def select_rom_def dict_of_rows_def
        List.map_filter_def load_machine_def load_machine_rom_def example_sha1_def)

lemma example_rom_ids:
  "\<exists>st. remap_rom_ids
       [\<lparr>lr_old_id = 2, lr_sha1 = example_sha1 3, lr_size_pow2 = 14, lr_name_id = Some 2\<rparr>,
        \<lparr>lr_old_id = 1, lr_sha1 = example_sha1 7, lr_size_pow2 = 14, lr_name_id = Some 1\<rparr>]
       11 23 = Inr st \<and>
     rs_rom_id_map st = [2 \<mapsto> 917504, 1 \<mapsto> 917505] \<and>
     rs_new_ids st = [0 \<mapsto> 917504, Suc 0 \<mapsto> 917505] \<and>
     rs_size_index st =
       (\<lambda>s. if s \<in> {11, 12, 13} then Some (0, 0)
            else if s = 14 then Some (0, 2)
            else if s \<in> {15, 16, 17, 18, 19, 20, 21, 22, 23} then Some (2, 0) else None)"
  by (simp add: remap_rom_ids_def roms_by_size_def make_rom_id_def Let_def fun_eq_iff)

lemma example_remap:
  "\<exists>rd. remap_ids (load_database example_db 11 23) 11 23 = Inr rd \<and>
     rd_roms rd =
       [\<lparr>rr_old_id = 2, rr_sha1 = example_sha1 3, rr_size_pow2 = 14, rr_name_id = 1,
          rr_new_id = Some 917504\<rparr>,
        \<lparr>rr_old_id = 1, rr_sha1 = example_sha1 7, rr_size_pow2 = 14, rr_name_id = 0,
          rr_new_id = Some 917505\<rparr>] \<and>
     rd_machines rd =
       [\<lparr>rm_name = pystr_of ''pacman'', rm_cloneof_id = 0xFFFFFF, rm_romof_id = 0xFFFFFF,
          rm_description = Some [1, 2, 3], rm_year = 0, rm_manufacturer_id = 0, rm_old_id = 1\<rparr>,
        \<lparr>rm_name = pystr_of ''puckman'', rm_cloneof_id = 0, rm_romof_id = 0xFFFFFF,
          rm_description = None, rm_year = 1980, rm_manufacturer_id = 0, rm_old_id = 2\<rparr>] \<and>
     rd_machine_roms rd =
       [\<lparr>rmr_machine_id = 1, rmr_rom_id = 917504, rmr_name_id = 1\<rparr>,
        \<lparr>rmr_machine_id = 0, rmr_rom_id = 917505, rmr_name_id = 0\<rparr>,
        \<lparr>rmr_machine_id = 1, rmr_rom_id = 917505, rmr_name_id = 1\<rparr>] \<and>
     rd_manufacturers rd = [Some (pystr_of ''Namco'')] \<and>
     rd_rom_names rd = [pystr_of ''a.rom'', pystr_of ''b.rom''] \<and>
     rd_size_index rd =
       (\<lambda>s. if s \<in> {11, 12, 13} then Some (0, 0)
            else if s = 14 then Some (0, 2)
            else if s \<in> {15, 16, 17, 18, 19, 20, 21, 22, 23} then Some (2, 0) else None)"
proof -
  from example_rom_ids obtain st where
    "remap_rom_ids
       [\<lparr>lr_old_id = 2, lr_sha1 = example_sha1 3, lr_size_pow2 = 14, lr_name_id = Some 2\<rparr>,
        \<lparr>lr_old_id = 1, lr_sha1 = example_sha1 7, lr_size_pow2 = 14, lr_name_id = Some 1\<rparr>]
       11 23 = Inr st"
    "rs_rom_id_map st = [2 \<mapsto> 917504, 1 \<mapsto> 917505]"
    "rs_new_ids st = [0 \<mapsto> 917504, Suc 0 \<mapsto> 917505]"
    "rs_size_index st =
       (\<lambda>s. if s \<in> {11, 12, 13} then Some (0, 0)
            else if s = 14 then Some (0, 2)
            else if s \<in> {15, 16, 17, 18, 19, 20, 21, 22, 23} then Some (2, 0) else None)"
    by blast
  then show ?thesis
    by (simp add: remap_ids_def example_load Let_def remap_ref_def map_get_def dict_get_def
          NULL_ID_24_def NULL_ID_16_def insert_Diff_if)
qed

lemma example_generate: "generate id example_db 11 23 = Inr example_blob"
proof -
  from example_remap obtain rd where
    rd: "remap_ids (load_database example_db 11 23) 11 23 = Inr rd" and
    f: "rd_roms rd =
       [\<lparr>rr_old_id = 2, rr_sha1 = example_sha1 3, rr_size_pow2 = 14, rr_name_id = 1,
          rr_new_id = Some 917504\<rparr>,
        \<lparr>rr_old_id = 1, rr_sha1 = example_sha1 7, rr_size_pow2 = 14, rr_name_id = 0,
          rr_new_id = Some 917505\<rparr>]"
     "rd_machines rd =
       [\<lparr>rm_name = pystr_of ''pacman'', rm_cloneof_id = 0xFFFFFF, rm_romof_id = 0xFFFFFF,
          rm_description = Some [1, 2, 3], rm_year = 0, rm_manufacturer_id = 0, rm_old_id = 1\<rparr>,
        \<lparr>rm_name = pystr_of ''puckman'', rm_cloneof_id = 0, rm_romof_id = 0xFFFFFF,
          rm_description = None, rm_year = 1980, rm_manufacturer_id = 0, rm_old_id = 2\<rparr>]"
     "rd_machine_roms rd =
       [\<lparr>rmr_machine_id = 1, rmr_rom_id = 917504, rmr_name_id = 1\<rparr>,
        \<lparr>rmr_machine_id = 0, rmr_rom_id = 917505, rmr_name_id = 0\<rparr>,
        \<lparr>rmr_machine_id = 1, rmr_rom_id = 917505, rmr_name_id = 1\<rparr>]"
     "rd_manufacturers rd = [Some (pystr_of ''Namco'')]"
     "rd_rom_names rd = [pystr_of ''a.rom'', pystr_of ''b.rom'']"
     "rd_size_index rd =
       (\<lambda>s. if s \<in> {11, 12, 13} then Some (0, 0)
            else if s = 14 then Some (0, 2)
            else if s \<in> {15, 16, 17, 18, 19, 20, 21, 22, 23} then Some (2, 0) else None)"
    by blast
  have "\<exists>offs. build_strings_pool id rd = Inr
      ([78, 97, 109, 99, 111, 0, 97, 46, 114, 111, 109, 0, 98, 46, 114, 111, 109, 0,
        112, 97, 99, 109, 97, 110, 0, 112, 117, 99, 107, 109, 97, 110, 0], offs) \<and>
      offs (pystr_of ''Namco'') = Some 0 \<and> offs (pystr_of ''a.rom'') = Some 6 \<and>
      offs (pystr_of ''b.rom'') = Some 12 \<and> offs (pystr_of ''pacman'') = Some 18 \<and>
      offs (pystr_of ''puckman'') = Some 25"
    by (simp add: build_strings_pool_def collect_strings_def f pystr_of_def utf8_encode_def
          utf8_char_def)
  then obtain offs where
    sp: "build_strings_pool id rd = Inr
      ([78, 97, 109, 99, 111, 0, 97, 46, 114, 111, 109, 0, 98, 46, 114, 111, 109, 0,
        112, 97, 99, 109, 97, 110, 0, 112, 117, 99, 107, 109, 97, 110, 0], offs)" and
    o: "offs (pystr_of ''Namco'') = Some 0" "offs (pystr_of ''a.rom'') = Some 6"
      "offs (pystr_of ''b.rom'') = Some 12" "offs (pystr_of ''pacman'') = Some 18"
      "offs (pystr_of ''puckman'') = Some 25"
    by blast
  have dp: "build_descriptions_pool rd = ([1, 2, 3], [(0, 3), (0, 0)])"
    by (simp add: build_descriptions_pool_def f)
  show ?thesis
    by (simp add: generate_def rd sp dp generate_binary_def f o entry_defs example_sha1_def
          replicate_19 example_blob_def)
qed


lemma case_load:
  "load_database case_db 11 23 =
     \<lparr>ld_manufacturers = [],
      ld_rom_names = [(1, pystr_of ''a.rom''), (2, pystr_of ''b.rom'')],
      ld_roms =
        [\<lparr>lr_old_id = 1, lr_sha1 = replicate 20 0xAA, lr_size_pow2 = 11, lr_name_id = Some 1\<rparr>,
         \<lparr>lr_old_id = 2, lr_sha1 = replicate 20 0xAA, lr_size_pow2 = 11, lr_name_id = Some 2\<rparr>],
      ld_machines =
        [(1, \<lparr>lm_name = pystr_of ''alpha'', lm_cloneof_id = None, lm_romof_id = None,
               lm_description = None, lm_year = 0, lm_manufacturer_id = None\<rparr>),
         (2, \<lparr>lm_name = pystr_of ''beta'', lm_cloneof_id = None, lm_romof_id = None,
               lm_description = None, lm_year = 0, lm_manufacturer_id = None\<rparr>)],
      ld_machine_roms =
        [\<lparr>lmr_machine_id = 1, lmr_rom_id = 1, lmr_name_id = Some 1\<rparr>,
         \<lparr>lmr_machine_id = 2, lmr_rom_id = 2, lmr_name_id = Some 2\<rparr>]\<rparr>"
  by (simp add: load_database_def case_db_def select_rom_def dict_of_rows_def
        List.map_filter_def load_machine_def load_machine_rom_def)

lemma case_rom_ids:
  "\<exists>st. remap_rom_ids
       [\<lparr>lr_old_id = 1, lr_sha1 = replicate 20 0xAA, lr_size_pow2 = 11, lr_name_id = Some 1\<rparr>,
        \<lparr>lr_old_id = 2, lr_sha1 = replicate 20 0xAA, lr_size_pow2 = 11, lr_name_id = Some 2\<rparr>]
       11 23 = Inr st \<and>
     rs_rom_id_map st = [1 \<mapsto> 720896, 2 \<mapsto> 720897] \<and>
     rs_new_ids st = [0 \<mapsto> 720896, Suc 0 \<mapsto> 720897] \<and>
     rs_size_index st =
       (\<lambda>s. if s = 11 then Some (0, 2)
            else if s \<in> {12, 13, 14, 15, 16, 17, 18, 19, 20, 21, 22, 23} then Some (2, 0)
            else None)"
  by (simp add: remap_rom_ids_def roms_by_size_def make_rom_id_def Let_def fun_eq_iff)

lemma case_remap:
  "\<exists>rd. remap_ids (load_database case_db 11 23) 11 23 = Inr rd \<and>
     rd_roms rd =
       [\<lparr>rr_old_id = 1, rr_sha1 = replicate 20 0xAA, rr_size_pow2 = 11, rr_name_id = 0,
          rr_new_id = Some 720896\<rparr>,
        \<lparr>rr_old_id = 2, rr_sha1 = replicate 20 0xAA, rr_size_pow2 = 11, rr_name_id = 1,
          rr_new_id = Some 720897\<rparr>] \<and>
     rd_machines rd =
       [\<lparr>rm_name = pystr_of ''alpha'', rm_cloneof_id = 0xFFFFFF, rm_romof_id = 0xFFFFFF,
          rm_description = None, rm_year = 0, rm_manufacturer_id = 0xFFFF, rm_old_id = 1\<rparr>,
        \<lparr>rm_name = pystr_of ''beta'', rm_cloneof_id = 0xFFFFFF, rm_romof_id = 0xFFFFFF,
          rm_description = None, rm_year = 0, rm_manufacturer_id = 0xFFFF, rm_old_id = 2\<rparr>] \<and>
     rd_machine_roms rd =
       [\<lparr>rmr_machine_id = 0, rmr_rom_id = 720896, rmr_name_id = 0\<rparr>,
        \<lparr>rmr_machine_id = 1, rmr_rom_id = 720897, rmr_name_id = 1\<rparr>] \<and>
     rd_manufacturers rd = [] \<and>
     rd_rom_names rd = [pystr_of ''a.rom'', pystr_of ''b.rom''] \<and>
     rd_size_index rd =
       (\<lambda>s. if s = 11 then Some (0, 2)
            else if s \<in> {12, 13, 14, 15, 16, 17, 18, 19, 20, 21, 22, 23} then Some (2, 0)
            else None)"
proof -
  from case_rom_ids obtain st where
    "remap_rom_ids
       [\<lparr>lr_old_id = 1, lr_sha1 = replicate 20 0xAA, lr_size_pow2 = 11, lr_name_id = Some 1\<rparr>,
        \<lparr>lr_old_id = 2, lr_sha1 = replicate 20 0xAA, lr_size_pow2 = 11, lr_name_id = Some 2\<rparr>]
       11 23 = Inr st"
    "rs_rom_id_map st = [1 \<mapsto> 720896, 2 \<mapsto> 720897]"
    "rs_new_ids st = [0 \<mapsto> 720896, Suc 0 \<mapsto> 720897]"
    "rs_size_index st =
       (\<lambda>s. if s = 11 then Some (0, 2)
            else if s \<in> {12, 13, 14, 15, 16, 17, 18, 19, 20, 21, 22, 23} then Some (2, 0)
            else None)"
    by blast
  then show ?thesis
    by (simp add: remap_ids_def case_load Let_def remap_ref_def map_get_def dict_get_def
          NULL_ID_24_def NULL_ID_16_def insert_Diff_if)
qed

lemma case_generate: "generate id case_db 11 23 = Inr case_blob"
proof -
  from case_remap obtain rd where
    rd: "remap_ids (load_database case_db 11 23) 11 23 = Inr rd" and
    f: "rd_roms rd =
       [\<lparr>rr_old_id = 1, rr_sha1 = replicate 20 0xAA, rr_size_pow2 = 11, rr_name_id = 0,
          rr_new_id = Some 720896\<rparr>,
        \<lparr>rr_old_id = 2, rr_sha1 = replicate 20 0xAA, rr_size_pow2 = 11, rr_name_id = 1,
          rr_new_id = Some 720897\<rparr>]"
     "rd_machines rd =
       [\<lparr>rm_name = pystr_of ''alpha'', rm_cloneof_id = 0xFFFFFF, rm_romof_id = 0xFFFFFF,
          rm_description = None, rm_year = 0, rm_manufacturer_id = 0xFFFF, rm_old_id = 1\<rparr>,
        \<lparr>rm_name = pystr_of ''beta'', rm_cloneof_id = 0xFFFFFF, rm_romof_id = 0xFFFFFF,
          rm_description = None, rm_year = 0, rm_manufacturer_id = 0xFFFF, rm_old_id = 2\<rparr>]"
     "rd_machine_roms rd =
       [\<lparr>rmr_machine_id = 0, rmr_rom_id = 720896, rmr_name_id = 0\<rparr>,
        \<lparr>rmr_machine_id = 1, rmr_rom_id = 720897, rmr_name_id = 1\<rparr>]"
     "rd_manufacturers rd = []"
     "rd_rom_names rd = [pystr_of ''a.rom'', pystr_of ''b.rom'']"
     "rd_size_index rd =
       (\<lambda>s. if s = 11 then Some (0, 2)
            else if s \<in> {12, 13, 14, 15, 16, 17, 18, 19, 20, 21, 22, 23} then Some (2, 0)
            else None)"
    by blast
  have "\<exists>offs. build_strings_pool id rd = Inr
      ([97, 46, 114, 111, 109, 0, 97, 108, 112, 104, 97, 0, 98, 46, 114, 111, 109, 0,
        98, 101, 116, 97, 0], offs) \<and>
      offs (pystr_of ''a.rom'') = Some 0 \<and> offs (pystr_of ''alpha'') = Some 6 \<and>
      offs (pystr_of ''b.rom'') = Some 12 \<and> offs (pystr_of ''beta'') = Some 18"
    by (simp add: build_strings_pool_def collect_strings_def f pystr_of_def utf8_encode_def
          utf8_char_def)
  then obtain offs where
    sp: "build_strings_pool id rd = Inr
      ([97, 46, 114, 111, 109, 0, 97, 108, 112, 104, 97, 0, 98, 46, 114, 111, 109, 0,
        98, 101, 116, 97, 0], offs)" and
    o: "offs (pystr_of ''a.rom'') = Some 0" "offs (pystr_of ''alpha'') = Some 6"
      "offs (pystr_of ''b.rom'') = Some 12" "offs (pystr_of ''beta'') = Some 18"
    by blast
  have dp: "build_descriptions_pool rd = ([], [(0, 0), (0, 0)])"
    by (simp add: build_descriptions_pool_def f)
  show ?thesis
    by (simp add: generate_def rd sp dp generate_binary_def f o entry_defs replicate_20
          case_blob_def)
qed

lemma case_build: "build example_lib [case_dat] = Inr case_db"
  by (simp add: build_def case_ingest case_postprocess)

subsection \<open>The year of a machine, in the blob\<close>

text \<open>
  Claim C10. In the emitted blob the machine table holds one entry of 20 bytes for each
  machine that the Remapper keeps, in their order, and the entry of a machine whose year
  is \<open>NULL\<close> in the catalogue has the two bytes 0 at offset 16, its year field, which
  therefore reads 0. The blob is also the very blob that the catalogue with the literal
  year 0 in place of every \<open>NULL\<close> yields: a reader cannot tell the two apart.
\<close>

theorem null_year_written_as_zero:
  assumes gen: "generate hash_order db mn mx = Inr blob"
  shows "\<exists>data. remap_ids (load_database db mn mx) mn mx = Inr data \<and>
           length (blob_machines blob) = length (rd_machines data) \<and>
           (\<forall>k < length (rd_machines data).
              (\<forall>r \<in> set (machines db).
                  m_id r = rm_old_id (rd_machines data ! k) \<longrightarrow> m_year r = None) \<longrightarrow>
              length (blob_machines blob ! k) = 20 \<and>
              bytes_at (blob_machines blob ! k) 16 2 = [0, 0] \<and>
              entry_year (blob_machines blob ! k) = 0) \<and>
           generate hash_order (null_years_as_zero db) mn mx = Inr blob"
proof -
  from generate_layout [OF gen] obtain rd sp so where
    rd: "remap_ids (load_database db mn mx) mn mx = Inr rd" and
    tab: "map Inr (blob_machines blob) =
            map (machine_entry so (snd (build_descriptions_pool rd)))
              (List.enumerate 0 (rd_machines rd))"
    by blast
  from arg_cong [OF tab, of length]
  have len: "length (blob_machines blob) = length (rd_machines rd)" by simp
  have ent: "length (blob_machines blob ! k) = 20 \<and>
             bytes_at (blob_machines blob ! k) 16 2 = [0, 0] \<and>
             entry_year (blob_machines blob ! k) = 0"
    if k: "k < length (rd_machines rd)"
      and null: "\<forall>r \<in> set (machines db). m_id r = rm_old_id (rd_machines rd ! k) \<longrightarrow> m_year r = None"
    for k
  proof -
    let ?m = "rd_machines rd ! k"
    from arg_cong [OF tab, of "\<lambda>xs. xs ! k"] k len
    have e: "machine_entry so (snd (build_descriptions_pool rd)) (k, ?m) =
             Inr (blob_machines blob ! k)"
      by (simp add: nth_enumerate_eq)
    from k have "?m \<in> set (rd_machines rd)" by simp
    from rd_machines_source [OF rd this] obtain r where
      "r \<in> set (machines db)" "m_id r = rm_old_id ?m" "rm_year ?m = lm_year (load_machine r)"
      by blast
    with null have "rm_year ?m = 0" by (auto simp: load_machine_def)
    from machine_entry_year [OF e this]
    have "length (blob_machines blob ! k) = 20" "take 2 (drop 16 (blob_machines blob ! k)) = [0, 0]"
      by simp_all
    then show ?thesis by (simp add: bytes_at_def entry_year_def)
  qed
  have "generate hash_order (null_years_as_zero db) mn mx = Inr blob"
    using gen by (simp add: generate_def load_database_null_years)
  with rd len ent show ?thesis by blast
qed

theorem null_year_written_as_zero_witness:
  "generate id example_db 11 23 = Inr example_blob \<and>
   length (blob_machines example_blob) = 2 \<and>
   map m_year (machines example_db) = [None, Some 1980] \<and>
   length (blob_machines example_blob ! 0) = 20 \<and>
   bytes_at (blob_machines example_blob ! 0) 16 2 = [0, 0] \<and>
   entry_year (blob_machines example_blob ! 0) = 0 \<and>
   generate id (null_years_as_zero example_db) 11 23 = Inr example_blob"
proof -
  from null_year_written_as_zero [OF example_generate] obtain data where
    d: "remap_ids (load_database example_db 11 23) 11 23 = Inr data" and
    len: "length (blob_machines example_blob) = length (rd_machines data)" and
    ent: "\<And>k. k < length (rd_machines data) \<Longrightarrow>
            (\<forall>r \<in> set (machines example_db).
                m_id r = rm_old_id (rd_machines data ! k) \<longrightarrow> m_year r = None) \<Longrightarrow>
            length (blob_machines example_blob ! k) = 20 \<and>
            bytes_at (blob_machines example_blob ! k) 16 2 = [0, 0] \<and>
            entry_year (blob_machines example_blob ! k) = 0" and
    nz: "generate id (null_years_as_zero example_db) 11 23 = Inr example_blob"
    by blast
  from example_remap d have old: "map rm_old_id (rd_machines data) = [1, 2]" by auto
  then have l2: "length (rd_machines data) = 2" by (metis length_map length_Cons list.size(3) numeral_2_eq_2)
  from old have o0: "rm_old_id (rd_machines data ! 0) = 1"
    by (metis l2 nth_Cons_0 nth_map zero_less_numeral)
  have "\<forall>r \<in> set (machines example_db). m_id r = rm_old_id (rd_machines data ! 0) \<longrightarrow> m_year r = None"
    by (simp add: o0 example_db_def)
  from ent [OF _ this] l2 len nz example_generate show ?thesis
    by (simp add: example_db_def)
qed

subsection \<open>One SHA-1 in two ROM entries\<close>

text \<open>
  Claim C6 fails on the code: two machines of one document name the same SHA-1, one in
  lower and one in upper case; \<open>process_dat_file\<close> keys its ROM cache by the attribute as
  written, so the catalogue gets two Rom rows with that SHA-1, and the blob for the default
  band holds two ROM entries with the same 20 bytes next to each other in the class of
  \<open>size_pow2\<close> 11: its ROM table is not strictly ascending.
\<close>

theorem same_sha1_in_two_rom_entries:
  "build example_lib [case_dat] = Inr case_db \<and>
   generate id case_db 11 23 = Inr case_blob \<and>
   map entry_sha1 (blob_roms case_blob) = [replicate 20 0xAA, replicate 20 0xAA] \<and>
   \<not> sorted_wrt (<) (map entry_sha1 (blob_roms case_blob))"
proof -
  from generate_layout [OF case_generate] obtain rd where
    rd: "remap_ids (load_database case_db 11 23) 11 23 = Inr rd" and
    tab: "map Inr (blob_roms case_blob) = map rom_entry (rd_roms rd)"
    by blast
  from case_remap rd obtain r0 r1 where
    rs: "rd_roms rd = [r0, r1]" "rr_sha1 r0 = replicate 20 0xAA" "rr_sha1 r1 = replicate 20 0xAA"
    by auto
  from tab rs obtain b0 b1 where
    bs: "blob_roms case_blob = [b0, b1]" "rom_entry r0 = Inr b0" "rom_entry r1 = Inr b1"
    by (auto simp: map_eq_Cons_conv)
  from rom_entry_bytes [OF bs(2)] rom_entry_bytes [OF bs(3)] rs
  have "take 20 b0 = replicate 20 0xAA" "take 20 b1 = replicate 20 0xAA" by simp_all
  then have m: "map entry_sha1 (blob_roms case_blob) = [replicate 20 0xAA, replicate 20 0xAA]"
    by (simp add: bs entry_sha1_def)
  then have n: "\<not> sorted_wrt (<) (map entry_sha1 (blob_roms case_blob))" by simp
  show ?thesis by (intro conjI case_build case_generate m n)
qed

subsection \<open>ROM elements with and without a SHA-1, on concrete documents\<close>

theorem rom_without_sha1_dropped_witness:
  "re_sha1 nodump_rom = None \<and>
   build example_lib
     [[example_machine ''alpha''
         [nodump_rom, case_rom ''a.rom'' ''aaaaaaaaaaaaaaaaaaaaaaaaaaaaaaaaaaaaaaaa''],
       example_machine ''beta'' [case_rom ''b.rom'' ''AAAAAAAAAAAAAAAAAAAAAAAAAAAAAAAAAAAAAAAA'']]] =
     Inr case_db \<and>
   ingest example_lib
     [[example_machine ''alpha''
         [nodump_rom, case_rom ''a.rom'' ''aaaaaaaaaaaaaaaaaaaaaaaaaaaaaaaaaaaaaaaa''],
       example_machine ''beta'' [case_rom ''b.rom'' ''AAAAAAAAAAAAAAAAAAAAAAAAAAAAAAAAAAAAAAAA'']]] =
     Inr case_db"
proof -
  have n: "re_sha1 nodump_rom = None \<or> re_sha1 nodump_rom = Some []"
    by (simp add: nodump_rom_def)
  from rom_without_sha1_dropped [OF n, where lib = example_lib and ?dats1.0 = "[]"
      and before = "[]" and elem = "example_machine ''alpha'' []" and pre = "[]"
      and post = "[case_rom ''a.rom'' ''aaaaaaaaaaaaaaaaaaaaaaaaaaaaaaaaaaaaaaaa'']"
      and after = "[example_machine ''beta''
                      [case_rom ''b.rom'' ''AAAAAAAAAAAAAAAAAAAAAAAAAAAAAAAAAAAAAAAA'']]"
      and ?dats2.0 = "[]"]
  show ?thesis
    using case_build case_ingest
    by (simp add: example_machine_def case_dat_def nodump_rom_def)
qed

lemma hex_zz: "bytes_fromhex (pystr_of ''zz'') = Inl ValueError"
  by (simp add: pystr_of_def hex_digit_def is_ascii_space_def)

lemma hex_ab: "bytes_fromhex (pystr_of ''ab'') = Inr [0xAB]"
  by (simp add: pystr_of_def hex_digit_def is_ascii_space_def)

lemmas ingest_defs =
  ingest_def process_dat_file_def process_elem_def parse_machine_def List.map_filter_def
  example_machine_def initial_state_def create_database_def process_rom_def
  insert_rom_name_def insert_rom_def next_rowid_def insert_machine_def insert_machine_rom_def
  name_to_id_of_def resolve_def int_log2_2048 build_state.extend_def build_state.truncate_def
  dat_state.defs build_state.defs Let_def

lemma short_ingest:
  "ingest example_lib [[example_machine ''alpha'' [case_rom ''a.rom'' ''ab'']]] = Inr short_db"
  by (simp add: ingest_defs parse_case_rom hex_ab short_db_def)

lemma short_postprocess: "postprocess example_lib short_db = Inr short_db"
  by (simp add: postprocess_def extract_neogeo_bios_def find_bios_rom_ids_def joined_rom_ids_def
        NEOGEO_BIOS_THRESHOLD_def cleanup_orphans_def short_db_def Let_def)

theorem malformed_sha1_counterexample:
  "build example_lib [[example_machine ''alpha'' [case_rom ''a.rom'' ''zz'']]] = Inl ValueError \<and>
   build example_lib [[example_machine ''alpha'' [case_rom ''a.rom'' ''ab'']]] = Inr short_db \<and>
   map rom_sha1 (roms short_db) = [Some [0xAB]] \<and>
   map mr_rom_id (machine_roms short_db) = [1]"
proof -
  have "ingest example_lib [[example_machine ''alpha'' [case_rom ''a.rom'' ''zz'']]] = Inl ValueError"
    by (simp add: ingest_defs parse_case_rom hex_zz)
  then have a: "build example_lib [[example_machine ''alpha'' [case_rom ''a.rom'' ''zz'']]] =
                Inl ValueError"
    by (simp add: build_def)
  have b: "build example_lib [[example_machine ''alpha'' [case_rom ''a.rom'' ''ab'']]] = Inr short_db"
    by (simp add: build_def short_ingest short_postprocess)
  show ?thesis by (intro conjI a b) (simp_all add: short_db_def)
qed

end
